theory Spec2Isabelle
  imports Main "HOL-Library.Word" "HOL-Library.Sublist" "HOL-Library.Signed_Division"
begin

section \<open>Strings\<close>

text \<open>
  Go strings are byte sequences; they are modelled as \<open>string\<close> (a list of bytes).
  \<open>strings.ToLower\<close> and \<open>strings.ToUpper\<close> are modelled on the ASCII letters, which is
  what they do on every byte below 128; DNS names and type tokens are ASCII.
\<close>

definition lower_char :: "char \<Rightarrow> char" where
  "lower_char c =
     (case map_of (zip ''ABCDEFGHIJKLMNOPQRSTUVWXYZ'' ''abcdefghijklmnopqrstuvwxyz'') c of
        Some l \<Rightarrow> l | None \<Rightarrow> c)"

definition upper_char :: "char \<Rightarrow> char" where
  "upper_char c =
     (case map_of (zip ''abcdefghijklmnopqrstuvwxyz'' ''ABCDEFGHIJKLMNOPQRSTUVWXYZ'') c of
        Some u \<Rightarrow> u | None \<Rightarrow> c)"

definition ToLower :: "string \<Rightarrow> string" where
  "ToLower s = map lower_char s"

definition ToUpper :: "string \<Rightarrow> string" where
  "ToUpper s = map upper_char s"

text \<open>\<open>strings.HasSuffix(s, suffix)\<close>:
  \<open>len(s) >= len(suffix) && s[len(s)-len(suffix):] == suffix\<close>.\<close>

definition HasSuffix :: "string \<Rightarrow> string \<Rightarrow> bool" where
  "HasSuffix s suf \<longleftrightarrow> length suf \<le> length s \<and> drop (length s - length suf) s = suf"

text \<open>\<open>strings.Join(elems, sep)\<close>.\<close>

fun Join :: "string list \<Rightarrow> string \<Rightarrow> string" where
  "Join [] sep = []"
| "Join [x] sep = x"
| "Join (x # y # ys) sep = x @ sep @ Join (y # ys) sep"

section \<open>Zone model (internal/zone)\<close>

type_synonym RRType = string

abbreviation TypeA :: RRType where "TypeA \<equiv> ''A''"
abbreviation TypeAAAA :: RRType where "TypeAAAA \<equiv> ''AAAA''"
abbreviation TypeCNAME :: RRType where "TypeCNAME \<equiv> ''CNAME''"
abbreviation TypeMX :: RRType where "TypeMX \<equiv> ''MX''"
abbreviation TypeNS :: RRType where "TypeNS \<equiv> ''NS''"
abbreviation TypeTXT :: RRType where "TypeTXT \<equiv> ''TXT''"
abbreviation TypeSRV :: RRType where "TypeSRV \<equiv> ''SRV''"

text \<open>\<open>net.IP\<close> is a byte slice of length 4 or 16.\<close>

type_synonym IP = "8 word list"

record SOA =
  soa_MName :: string
  soa_RName :: string
  soa_Refresh :: "32 word"
  soa_Retry :: "32 word"
  soa_Expire :: "32 word"
  soa_NegativeTTL :: "32 word"

record MX =
  mx_Preference :: "16 word"
  mx_Host :: string

record SRV =
  srv_Priority :: "16 word"
  srv_Weight :: "16 word"
  srv_Port :: "16 word"
  srv_Target :: string

record RRSet =
  rs_Type :: RRType
  rs_TTL :: "32 word"
  rs_A :: "IP list"
  rs_AAAA :: "IP list"
  rs_CNAME :: string
  rs_NS :: "string list"
  rs_TXT :: "string list"
  rs_MX :: "MX list"
  rs_SRV :: "SRV list"

text \<open>
  \<open>ByName\<close> is \<open>map[string]map[RRType]*RRSet\<close>. The loader never stores a nil inner map
  or a nil RRSet pointer, so presence in the Go map is presence in the HOL map.
\<close>

record ZoneIndex =
  zi_ZoneFQDN :: string
  zi_Serial :: "32 word"
  zi_SOA :: SOA
  zi_TTLDef :: "32 word"
  zi_ByName :: "string \<rightharpoonup> (RRType \<rightharpoonup> RRSet)"

section \<open>Zone store\<close>

text \<open>
  \<open>Store.zones\<close> is a Go map from lowercase zone FQDN to index. It is modelled as an
  association list with distinct keys; the order of the list is the (unspecified) order
  in which \<open>range s.zones\<close> visits the entries.
\<close>

type_synonym Store = "(string \<times> ZoneIndex) list"

fun GetZone_loop ::
  "string \<Rightarrow> Store \<Rightarrow> string \<Rightarrow> ZoneIndex option \<Rightarrow> ZoneIndex option \<times> string" where
  "GetZone_loop name [] best z = (z, best)"
| "GetZone_loop name ((zone, zi) # rest) best z =
     (if HasSuffix name zone then
        (if length zone > length best then GetZone_loop name rest zone (Some zi)
         else GetZone_loop name rest best z)
      else GetZone_loop name rest best z)"

definition GetZoneForName :: "Store \<Rightarrow> string \<Rightarrow> ZoneIndex option \<times> string" where
  "GetZoneForName s qname = GetZone_loop (ToLower qname) s [] None"

text \<open>\<open>s.zones[newz.ZoneFQDN] = newz\<close>: replace the entry in place, or add one.\<close>

fun zones_put :: "Store \<Rightarrow> string \<Rightarrow> ZoneIndex \<Rightarrow> Store" where
  "zones_put [] k v = [(k, v)]"
| "zones_put ((k', v') # rest) k v =
     (if k' = k then (k, v) # rest else (k', v') # zones_put rest k v)"

definition SwapZone :: "Store \<Rightarrow> ZoneIndex \<Rightarrow> Store" where
  "SwapZone s newz = zones_put s (zi_ZoneFQDN newz) newz"

definition MustFQDN :: "string \<Rightarrow> string" where
  "MustFQDN name =
     (if name = [] then name else if HasSuffix name ''.'' then name else name @ ''.'')"

definition RemoveZone :: "Store \<Rightarrow> string \<Rightarrow> Store" where
  "RemoveZone s zone = filter (\<lambda>(k, v). k \<noteq> ToLower (MustFQDN zone)) s"

section \<open>Zone files and the loader\<close>

text \<open>
  A decoded JSON value, as \<open>encoding/json\<close> stores it in an \<open>any\<close>: \<open>nil\<close>, \<open>bool\<close>,
  \<open>float64\<close>, \<open>string\<close>, \<open>[]any\<close> or \<open>map[string]any\<close>. Numbers are modelled as
  integers (the loader only converts them to \<open>uint16\<close>); an object is the list of its
  members.
\<close>

datatype json =
  JNull | JBool bool | JNum int | JStr string | JArr "json list" | JObj "(string \<times> json) list"

record RawRecord =
  raw_Name :: string
  raw_Type :: string
  raw_TTL :: "32 word option"
  raw_Value :: string
  raw_Values :: json

record ZoneFile =
  zf_Zone :: string
  zf_Serial :: "32 word"
  zf_TTLDefault :: "32 word"
  zf_SOA :: SOA
  zf_NS :: "string list"
  zf_Records :: "RawRecord list"

datatype load_error =
  ErrZoneRequired | ErrSOARequired | ErrNSRequired
| ErrCNAMEValue string | ErrCNAMEUnique string
| ErrInvalidA string | ErrInvalidAAAA string
| ErrExpectedString | ErrValuesMissing | ErrInvalidValuesType
| ErrMXArray | ErrMXObject | ErrMXFields
| ErrSRVArray | ErrSRVObject | ErrSRVFields
| ErrUnsupportedType string

definition Validate :: "ZoneFile \<Rightarrow> load_error + ZoneFile" where
  "Validate z =
     (if zf_Zone z = [] then Inl ErrZoneRequired
      else
        let z1 = (if \<not> HasSuffix (zf_Zone z) ''.'' then z\<lparr>zf_Zone := zf_Zone z @ ''.''\<rparr> else z)
        in if soa_MName (zf_SOA z1) = [] \<or> soa_RName (zf_SOA z1) = [] then Inl ErrSOARequired
           else if zf_NS z1 = [] then Inl ErrNSRequired
           else Inr z1)"

definition NormalizeFQDN :: "string \<Rightarrow> string \<Rightarrow> string" where
  "NormalizeFQDN name zone =
     (if name = ''@'' \<or> name = [] then ToLower zone
      else if HasSuffix name ''.'' then ToLower name
      else ToLower (name @ ''.'' @ zone))"

definition ensureTTL :: "32 word option \<Rightarrow> 32 word \<Rightarrow> 32 word" where
  "ensureTTL ttl def = (case ttl of None \<Rightarrow> def | Some t \<Rightarrow> if t = 0 then def else t)"

definition ttlOrDef :: "32 word option \<Rightarrow> 32 word \<Rightarrow> 32 word" where
  "ttlOrDef ttl def = ensureTTL ttl def"

type_synonym TypeMap = "RRType \<rightharpoonup> RRSet"
type_synonym NameMap = "string \<rightharpoonup> TypeMap"

text \<open>\<open>ensureName\<close> returns the map (with the entry created if it was absent) and the
  inner map stored at \<open>name\<close>.\<close>

definition ensureName :: "NameMap \<Rightarrow> string \<Rightarrow> NameMap \<times> TypeMap" where
  "ensureName by name =
     (case by name of None \<Rightarrow> (by(name \<mapsto> Map.empty), Map.empty) | Some m \<Rightarrow> (by, m))"

text \<open>\<open>&RRSet{Type: t, TTL: ttl}\<close>: every other field has its zero value.\<close>

definition new_RRSet :: "RRType \<Rightarrow> 32 word \<Rightarrow> RRSet" where
  "new_RRSet t ttl =
     \<lparr>rs_Type = t, rs_TTL = ttl, rs_A = [], rs_AAAA = [], rs_CNAME = [], rs_NS = [],
      rs_TXT = [], rs_MX = [], rs_SRV = []\<rparr>"

text \<open>\<open>appendRRSet\<close> returns the updated inner map and the RRSet now stored at \<open>t\<close>
  (the pointer \<open>m[t]\<close> of the source).\<close>

definition appendRRSet :: "TypeMap \<Rightarrow> RRType \<Rightarrow> 32 word \<Rightarrow> TypeMap \<times> RRSet" where
  "appendRRSet m t ttl =
     (let rs0 = (case m t of None \<Rightarrow> new_RRSet t ttl | Some rs \<Rightarrow> rs);
          rs1 = (if rs_TTL rs0 > ttl then rs0\<lparr>rs_TTL := ttl\<rparr> else rs0)
      in (m(t \<mapsto> rs1), rs1))"

definition normalizeFQDNs :: "string list \<Rightarrow> string list" where
  "normalizeFQDNs v = map (\<lambda>s. ToLower (MustFQDN s)) v"

definition hasOtherTypes :: "TypeMap \<Rightarrow> bool" where
  "hasOtherTypes m =
     (if card (dom m) = 0 then False
      else if card (dom m) = 1 then m TypeCNAME \<noteq> None
      else True)"

fun strings_of :: "json list \<Rightarrow> load_error + string list" where
  "strings_of [] = Inr []"
| "strings_of (JStr s # es) =
     (case strings_of es of Inl e \<Rightarrow> Inl e | Inr res \<Rightarrow> Inr (s # res))"
| "strings_of (_ # es) = Inl ErrExpectedString"

fun toStringSlice :: "json \<Rightarrow> load_error + string list" where
  "toStringSlice (JArr x) = strings_of x"
| "toStringSlice JNull = Inl ErrValuesMissing"
| "toStringSlice _ = Inl ErrInvalidValuesType"

text \<open>\<open>uint16(f)\<close> for the \<open>float64\<close> of a JSON number, on integral values.\<close>

definition to_uint16 :: "int \<Rightarrow> 16 word" where
  "to_uint16 n = word_of_int n"

fun mx_of :: "json list \<Rightarrow> load_error + MX list" where
  "mx_of [] = Inr []"
| "mx_of (JObj m # es) =
     (case (map_of m ''preference'', map_of m ''host'') of
        (Some (JNum prefF), Some (JStr hostS)) \<Rightarrow>
          (case mx_of es of Inl e \<Rightarrow> Inl e
           | Inr out \<Rightarrow> Inr (\<lparr>mx_Preference = to_uint16 prefF, mx_Host = hostS\<rparr> # out))
      | _ \<Rightarrow> Inl ErrMXFields)"
| "mx_of (_ # es) = Inl ErrMXObject"

fun toMXSlice :: "json \<Rightarrow> load_error + MX list" where
  "toMXSlice (JArr arr) = mx_of arr"
| "toMXSlice _ = Inl ErrMXArray"

fun srv_of :: "json list \<Rightarrow> load_error + SRV list" where
  "srv_of [] = Inr []"
| "srv_of (JObj s # es) =
     (case (map_of s ''priority'', map_of s ''weight'', map_of s ''port'', map_of s ''target'') of
        (Some (JNum prio), Some (JNum w), Some (JNum p), Some (JStr target)) \<Rightarrow>
          (case srv_of es of Inl e \<Rightarrow> Inl e
           | Inr out \<Rightarrow>
               Inr (\<lparr>srv_Priority = to_uint16 prio, srv_Weight = to_uint16 w,
                     srv_Port = to_uint16 p, srv_Target = target\<rparr> # out))
      | _ \<Rightarrow> Inl ErrSRVFields)"
| "srv_of (_ # es) = Inl ErrSRVObject"

fun toSRVSlice :: "json \<Rightarrow> load_error + SRV list" where
  "toSRVSlice (JArr arr) = srv_of arr"
| "toSRVSlice _ = Inl ErrSRVArray"

text \<open>
  \<open>net.IP.To4\<close> and \<open>net.IP.To16\<close> of the Go standard library. \<open>net.ParseIP\<close> is a
  parameter \<open>parseIP\<close> of the loader (\<open>None\<close> is its nil result).
\<close>

definition To4 :: "IP \<Rightarrow> IP option" where
  "To4 ip =
     (if length ip = 4 then Some ip
      else if length ip = 16 \<and> list_all (\<lambda>b. b = 0) (take 10 ip) \<and> ip ! 10 = 255 \<and> ip ! 11 = 255
           then Some (drop 12 ip)
      else None)"

definition To16 :: "IP \<Rightarrow> IP option" where
  "To16 ip =
     (if length ip = 4 then Some ([0, 0, 0, 0, 0, 0, 0, 0, 0, 0, 255, 255] @ ip)
      else if length ip = 16 then Some ip
      else None)"

fun parse_A :: "(string \<Rightarrow> IP option) \<Rightarrow> string list \<Rightarrow> load_error + IP list" where
  "parse_A parseIP [] = Inr []"
| "parse_A parseIP (s # ss) =
     (case parseIP s of
        None \<Rightarrow> Inl (ErrInvalidA s)
      | Some ip \<Rightarrow>
          (case To4 ip of
             None \<Rightarrow> Inl (ErrInvalidA s)
           | Some ip4 \<Rightarrow>
               (case parse_A parseIP ss of Inl e \<Rightarrow> Inl e | Inr l \<Rightarrow> Inr (ip4 # l))))"

fun parse_AAAA :: "(string \<Rightarrow> IP option) \<Rightarrow> string list \<Rightarrow> load_error + IP list" where
  "parse_AAAA parseIP [] = Inr []"
| "parse_AAAA parseIP (s # ss) =
     (case parseIP s of
        None \<Rightarrow> Inl (ErrInvalidAAAA s)
      | Some ip \<Rightarrow>
          (if To16 ip = None \<or> To4 ip \<noteq> None then Inl (ErrInvalidAAAA s)
           else (case parse_AAAA parseIP ss of Inl e \<Rightarrow> Inl e | Inr l \<Rightarrow> Inr (ip # l))))"

text \<open>
  One iteration of the loop over \<open>z.Records\<close> in \<open>ToIndex\<close>. The statements
  \<open>appendRRSet(m, T, ttl).F = append(appendRRSet(m, T, ttl).F, ...)\<close> call
  \<open>appendRRSet\<close> twice and then store into the RRSet both calls return.
\<close>

definition index_record ::
  "(string \<Rightarrow> IP option) \<Rightarrow> string \<Rightarrow> 32 word \<Rightarrow> NameMap \<Rightarrow> RawRecord \<Rightarrow> load_error + NameMap" where
  "index_record parseIP zoneFQDN ttlDefault by0 r =
     (let rt = ToUpper (raw_Type r);
          fqdn = NormalizeFQDN (raw_Name r) zoneFQDN;
          (by, m) = ensureName by0 fqdn;
          ttl = ensureTTL (raw_TTL r) ttlDefault
      in
        if rt = TypeCNAME then
          (if raw_Value r = [] then Inl (ErrCNAMEValue fqdn)
           else if hasOtherTypes m then Inl (ErrCNAMEUnique fqdn)
           else Inr (by(fqdn \<mapsto> m(TypeCNAME \<mapsto>
                  (new_RRSet TypeCNAME ttl)\<lparr>rs_CNAME := NormalizeFQDN (raw_Value r) zoneFQDN\<rparr>))))
        else if rt = TypeA then
          (case toStringSlice (raw_Values r) of Inl e \<Rightarrow> Inl e
           | Inr ips \<Rightarrow>
               (case parse_A parseIP ips of Inl e \<Rightarrow> Inl e
                | Inr list \<Rightarrow>
                    let (m1, _) = appendRRSet m TypeA ttl; (m2, rs) = appendRRSet m1 TypeA ttl
                    in Inr (by(fqdn \<mapsto> m2(TypeA \<mapsto> rs\<lparr>rs_A := rs_A rs @ list\<rparr>)))))
        else if rt = TypeAAAA then
          (case toStringSlice (raw_Values r) of Inl e \<Rightarrow> Inl e
           | Inr ips \<Rightarrow>
               (case parse_AAAA parseIP ips of Inl e \<Rightarrow> Inl e
                | Inr list \<Rightarrow>
                    let (m1, _) = appendRRSet m TypeAAAA ttl; (m2, rs) = appendRRSet m1 TypeAAAA ttl
                    in Inr (by(fqdn \<mapsto> m2(TypeAAAA \<mapsto> rs\<lparr>rs_AAAA := rs_AAAA rs @ list\<rparr>)))))
        else if rt = TypeTXT then
          (case toStringSlice (raw_Values r) of Inl e \<Rightarrow> Inl e
           | Inr vals \<Rightarrow>
               let (m1, _) = appendRRSet m TypeTXT ttl; (m2, rs) = appendRRSet m1 TypeTXT ttl
               in Inr (by(fqdn \<mapsto> m2(TypeTXT \<mapsto> rs\<lparr>rs_TXT := rs_TXT rs @ vals\<rparr>))))
        else if rt = TypeNS then
          (case toStringSlice (raw_Values r) of Inl e \<Rightarrow> Inl e
           | Inr vals \<Rightarrow>
               let (m1, _) = appendRRSet m TypeNS ttl; (m2, rs) = appendRRSet m1 TypeNS ttl
               in Inr (by(fqdn \<mapsto> m2(TypeNS \<mapsto> rs\<lparr>rs_NS := rs_NS rs @ normalizeFQDNs vals\<rparr>))))
        else if rt = TypeMX then
          (case toMXSlice (raw_Values r) of Inl e \<Rightarrow> Inl e
           | Inr mxs0 \<Rightarrow>
               let mxs = map (\<lambda>x. x\<lparr>mx_Host := ToLower (MustFQDN (mx_Host x))\<rparr>) mxs0;
                   (m1, _) = appendRRSet m TypeMX ttl; (m2, rs) = appendRRSet m1 TypeMX ttl
               in Inr (by(fqdn \<mapsto> m2(TypeMX \<mapsto> rs\<lparr>rs_MX := rs_MX rs @ mxs\<rparr>))))
        else if rt = TypeSRV then
          (case toSRVSlice (raw_Values r) of Inl e \<Rightarrow> Inl e
           | Inr srvs0 \<Rightarrow>
               let srvs = map (\<lambda>x. x\<lparr>srv_Target := ToLower (MustFQDN (srv_Target x))\<rparr>) srvs0;
                   (m1, _) = appendRRSet m TypeSRV ttl; (m2, rs) = appendRRSet m1 TypeSRV ttl
               in Inr (by(fqdn \<mapsto> m2(TypeSRV \<mapsto> rs\<lparr>rs_SRV := rs_SRV rs @ srvs\<rparr>))))
        else Inl (ErrUnsupportedType (raw_Type r)))"

fun index_records ::
  "(string \<Rightarrow> IP option) \<Rightarrow> string \<Rightarrow> 32 word \<Rightarrow> NameMap \<Rightarrow> RawRecord list \<Rightarrow> load_error + NameMap" where
  "index_records parseIP zoneFQDN ttlDefault by [] = Inr by"
| "index_records parseIP zoneFQDN ttlDefault by (r # rs) =
     (case index_record parseIP zoneFQDN ttlDefault by r of
        Inl e \<Rightarrow> Inl e
      | Inr by' \<Rightarrow> index_records parseIP zoneFQDN ttlDefault by' rs)"

definition ToIndex :: "(string \<Rightarrow> IP option) \<Rightarrow> ZoneFile \<Rightarrow> load_error + ZoneIndex" where
  "ToIndex parseIP z0 =
     (case Validate z0 of
        Inl e \<Rightarrow> Inl e
      | Inr z \<Rightarrow>
          let zoneFQDN = MustFQDN (zf_Zone z);
              by0 =
                (if zf_NS z \<noteq> [] then
                   (let name = ToLower zoneFQDN; (by, m) = ensureName Map.empty name
                    in by(name \<mapsto> m(TypeNS \<mapsto>
                         (new_RRSet TypeNS (ttlOrDef None (zf_TTLDefault z)))
                           \<lparr>rs_NS := normalizeFQDNs (zf_NS z)\<rparr>)))
                 else Map.empty)
          in (case index_records parseIP zoneFQDN (zf_TTLDefault z) by0 (zf_Records z) of
                Inl e \<Rightarrow> Inl e
              | Inr by \<Rightarrow>
                  Inr \<lparr>zi_ZoneFQDN = ToLower zoneFQDN, zi_Serial = zf_Serial z,
                       zi_SOA = zf_SOA z, zi_TTLDef = zf_TTLDefault z, zi_ByName = by\<rparr>))"

section \<open>Response cache (internal/cache)\<close>

text \<open>
  The LRU cache of \<open>github.com/hashicorp/golang-lru/v2\<close>, which the cache package wraps:
  a bounded list of entries, most recently used first. \<open>New\<close> rejects a size that is not
  positive; \<open>Add\<close> moves an existing key to the front and replaces its value, or pushes
  a new entry and evicts the oldest one when the size is exceeded; \<open>Get\<close> moves the entry
  to the front; \<open>Keys\<close> lists the keys from oldest to newest.
\<close>

record ('k, 'v) lru =
  lru_size :: int
  lru_items :: "('k \<times> 'v) list"

datatype cache_error = ErrPositiveSize

definition lru_New :: "int \<Rightarrow> cache_error + ('k, 'v) lru" where
  "lru_New sz = (if sz \<le> 0 then Inl ErrPositiveSize
                 else Inr \<lparr>lru_size = sz, lru_items = []\<rparr>)"

definition lru_Remove :: "('k, 'v) lru \<Rightarrow> 'k \<Rightarrow> ('k, 'v) lru" where
  "lru_Remove c k = c\<lparr>lru_items := filter (\<lambda>(k', v). k' \<noteq> k) (lru_items c)\<rparr>"

definition lru_Add :: "('k, 'v) lru \<Rightarrow> 'k \<Rightarrow> 'v \<Rightarrow> ('k, 'v) lru" where
  "lru_Add c k v =
     (if k \<in> fst ` set (lru_items c)
      then c\<lparr>lru_items := (k, v) # filter (\<lambda>(k', v'). k' \<noteq> k) (lru_items c)\<rparr>
      else (let items = (k, v) # lru_items c
            in if int (length items) > lru_size c then c\<lparr>lru_items := butlast items\<rparr>
               else c\<lparr>lru_items := items\<rparr>))"

definition lru_Get :: "('k, 'v) lru \<Rightarrow> 'k \<Rightarrow> 'v option \<times> ('k, 'v) lru" where
  "lru_Get c k =
     (case map_of (lru_items c) k of
        None \<Rightarrow> (None, c)
      | Some v \<Rightarrow> (Some v, c\<lparr>lru_items := (k, v) # filter (\<lambda>(k', v'). k' \<noteq> k) (lru_items c)\<rparr>))"

definition lru_Keys :: "('k, 'v) lru \<Rightarrow> 'k list" where
  "lru_Keys c = rev (map fst (lru_items c))"

record rrKey =
  k_Name :: string
  k_Type :: "16 word"

record negKey =
  nk_Name :: string
  nk_Type :: "16 word"
  nk_Rcode :: int

text \<open>Times and durations are in nanoseconds; \<open>time.Now()\<close> is the parameter \<open>now\<close>.\<close>

record 'a rrValue =
  v_ExpireAt :: int
  v_Data :: 'a

record 'a RRCaches =
  pos :: "(rrKey, 'a rrValue) lru"
  neg :: "(negKey, unit rrValue) lru"

text \<open>Go's \<open>capacity / 10\<close> truncates towards zero: \<open>sdiv\<close>.\<close>

definition NewRRCaches :: "int \<Rightarrow> cache_error + 'a RRCaches" where
  "NewRRCaches capacity =
     (case lru_New capacity of
        Inl err \<Rightarrow> Inl err
      | Inr p \<Rightarrow>
          (case lru_New (capacity sdiv 10) of
             Inl err \<Rightarrow> Inl err
           | Inr n \<Rightarrow> Inr \<lparr>pos = p, neg = n\<rparr>))"

definition key :: "string \<Rightarrow> 16 word \<Rightarrow> rrKey" where
  "key name qtype = \<lparr>k_Name = ToLower name, k_Type = qtype\<rparr>"

definition GetPositive :: "int \<Rightarrow> 'a RRCaches \<Rightarrow> string \<Rightarrow> 16 word \<Rightarrow> 'a option \<times> 'a RRCaches" where
  "GetPositive now c name qtype =
     (case lru_Get (pos c) (key name qtype) of
        (Some v, p) \<Rightarrow>
          (if now < v_ExpireAt v then (Some (v_Data v), c\<lparr>pos := p\<rparr>)
           else (None, c\<lparr>pos := lru_Remove p (key name qtype)\<rparr>))
      | (None, p) \<Rightarrow> (None, c\<lparr>pos := p\<rparr>))"

definition PutPositive :: "int \<Rightarrow> 'a RRCaches \<Rightarrow> string \<Rightarrow> 16 word \<Rightarrow> 'a \<Rightarrow> int \<Rightarrow> 'a RRCaches" where
  "PutPositive now c name qtype data ttl =
     c\<lparr>pos := lru_Add (pos c) (key name qtype) \<lparr>v_ExpireAt = now + ttl, v_Data = data\<rparr>\<rparr>"

definition GetNegative :: "int \<Rightarrow> 'a RRCaches \<Rightarrow> string \<Rightarrow> 16 word \<Rightarrow> int \<Rightarrow> bool \<times> 'a RRCaches" where
  "GetNegative now c name qtype rcode =
     (let k = \<lparr>nk_Name = ToLower name, nk_Type = qtype, nk_Rcode = rcode\<rparr>
      in case lru_Get (neg c) k of
           (Some v, n) \<Rightarrow>
             (if now < v_ExpireAt v then (True, c\<lparr>neg := n\<rparr>)
              else (False, c\<lparr>neg := lru_Remove n k\<rparr>))
         | (None, n) \<Rightarrow> (False, c\<lparr>neg := n\<rparr>))"

definition PutNegative :: "int \<Rightarrow> 'a RRCaches \<Rightarrow> string \<Rightarrow> 16 word \<Rightarrow> int \<Rightarrow> int \<Rightarrow> 'a RRCaches" where
  "PutNegative now c name qtype rcode ttl =
     c\<lparr>neg := lru_Add (neg c) \<lparr>nk_Name = ToLower name, nk_Type = qtype, nk_Rcode = rcode\<rparr>
                  \<lparr>v_ExpireAt = now + ttl, v_Data = ()\<rparr>\<rparr>"

text \<open>The two loops of \<open>InvalidateZone\<close>, over \<open>c.pos.Keys()\<close> and \<open>c.neg.Keys()\<close>.\<close>

fun invalidate_pos :: "string \<Rightarrow> rrKey list \<Rightarrow> (rrKey, 'v) lru \<Rightarrow> (rrKey, 'v) lru" where
  "invalidate_pos zone [] c = c"
| "invalidate_pos zone (k # ks) c =
     (if HasSuffix (k_Name k) zone then invalidate_pos zone ks (lru_Remove c k)
      else invalidate_pos zone ks c)"

fun invalidate_neg :: "string \<Rightarrow> negKey list \<Rightarrow> (negKey, 'v) lru \<Rightarrow> (negKey, 'v) lru" where
  "invalidate_neg zone [] c = c"
| "invalidate_neg zone (k # ks) c =
     (if HasSuffix (nk_Name k) zone then invalidate_neg zone ks (lru_Remove c k)
      else invalidate_neg zone ks c)"

definition InvalidateZone :: "'a RRCaches \<Rightarrow> string \<Rightarrow> 'a RRCaches" where
  "InvalidateZone c zone0 =
     (let zone = ToLower zone0
      in c\<lparr>pos := invalidate_pos zone (lru_Keys (pos c)) (pos c),
            neg := invalidate_neg zone (lru_Keys (neg c)) (neg c)\<rparr>)"

section \<open>Query engine (internal/dnsserver)\<close>

text \<open>
  The messages and records of \<open>github.com/miekg/dns\<close>, with the fields the handler
  reads and writes.
\<close>

record RR_Header =
  h_Name :: string
  h_Rrtype :: "16 word"
  h_Class :: "16 word"
  h_Ttl :: "32 word"

datatype RR =
  RR_A RR_Header IP
| RR_AAAA RR_Header IP
| RR_CNAME RR_Header string
| RR_NS RR_Header string
| RR_TXT RR_Header "string list"
| RR_MX RR_Header "16 word" string
| RR_SRV RR_Header "16 word" "16 word" "16 word" string
| RR_SOA RR_Header string string "32 word" "32 word" "32 word" "32 word" "32 word"

fun Header :: "RR \<Rightarrow> RR_Header" where
  "Header (RR_A h _) = h"
| "Header (RR_AAAA h _) = h"
| "Header (RR_CNAME h _) = h"
| "Header (RR_NS h _) = h"
| "Header (RR_TXT h _) = h"
| "Header (RR_MX h _ _) = h"
| "Header (RR_SRV h _ _ _ _) = h"
| "Header (RR_SOA h _ _ _ _ _ _ _) = h"

record Msg =
  m_Id :: "16 word"
  m_Rcode :: int
  m_Authoritative :: bool
  m_RecursionAvailable :: bool
  m_Answer :: "RR list"
  m_Ns :: "RR list"
  m_Extra :: "RR list"

definition dns_TypeA :: "16 word" where "dns_TypeA = 1"
definition dns_TypeNS :: "16 word" where "dns_TypeNS = 2"
definition dns_TypeCNAME :: "16 word" where "dns_TypeCNAME = 5"
definition dns_TypeSOA :: "16 word" where "dns_TypeSOA = 6"
definition dns_TypeMX :: "16 word" where "dns_TypeMX = 15"
definition dns_TypeTXT :: "16 word" where "dns_TypeTXT = 16"
definition dns_TypeAAAA :: "16 word" where "dns_TypeAAAA = 28"
definition dns_TypeSRV :: "16 word" where "dns_TypeSRV = 33"
definition dns_ClassINET :: "16 word" where "dns_ClassINET = 1"

definition RcodeSuccess :: int where "RcodeSuccess = 0"
definition RcodeFormatError :: int where "RcodeFormatError = 1"
definition RcodeServerFailure :: int where "RcodeServerFailure = 2"
definition RcodeNameError :: int where "RcodeNameError = 3"

text \<open>
  \<open>dns.Fqdn\<close> and \<open>dns.SplitDomainName\<close> of the DNS library, on names without backslash
  escapes: \<open>Fqdn\<close> appends the final dot when it is missing, \<open>SplitDomainName\<close> gives
  the labels between the dots (none for the empty name and the root).
\<close>

definition Fqdn :: "string \<Rightarrow> string" where
  "Fqdn s = (if s \<noteq> [] \<and> last s = CHR ''.'' then s else s @ ''.'')"

fun split_dots :: "string \<Rightarrow> string list" where
  "split_dots [] = [[]]"
| "split_dots (c # cs) =
     (if c = CHR ''.'' then [] # split_dots cs
      else (case split_dots cs of [] \<Rightarrow> [[c]] | l # ls \<Rightarrow> (c # l) # ls))"

definition SplitDomainName :: "string \<Rightarrow> string list" where
  "SplitDomainName s =
     (if s = [] \<or> s = ''.'' then []
      else split_dots (if last s = CHR ''.'' then butlast s else s))"

definition toRRType :: "16 word \<Rightarrow> RRType" where
  "toRRType qt =
     (if qt = dns_TypeA then TypeA
      else if qt = dns_TypeAAAA then TypeAAAA
      else if qt = dns_TypeCNAME then TypeCNAME
      else if qt = dns_TypeMX then TypeMX
      else if qt = dns_TypeNS then TypeNS
      else if qt = dns_TypeTXT then TypeTXT
      else if qt = dns_TypeSRV then TypeSRV
      else [])"

definition hdr :: "string \<Rightarrow> 16 word \<Rightarrow> RRSet \<Rightarrow> RR_Header" where
  "hdr name t rrset = \<lparr>h_Name = name, h_Rrtype = t, h_Class = dns_ClassINET, h_Ttl = rs_TTL rrset\<rparr>"

definition toRR :: "string \<Rightarrow> RRSet \<Rightarrow> RR list" where
  "toRR name rrset =
     (if rs_Type rrset = TypeA then map (\<lambda>ip. RR_A (hdr name dns_TypeA rrset) ip) (rs_A rrset)
      else if rs_Type rrset = TypeAAAA
        then map (\<lambda>ip. RR_AAAA (hdr name dns_TypeAAAA rrset) ip) (rs_AAAA rrset)
      else if rs_Type rrset = TypeCNAME
        then [RR_CNAME (hdr name dns_TypeCNAME rrset) (rs_CNAME rrset)]
      else if rs_Type rrset = TypeNS
        then map (\<lambda>ns. RR_NS (hdr name dns_TypeNS rrset) ns) (rs_NS rrset)
      else if rs_Type rrset = TypeTXT
        then map (\<lambda>s. RR_TXT (hdr name dns_TypeTXT rrset) [s]) (rs_TXT rrset)
      else if rs_Type rrset = TypeMX
        then map (\<lambda>mx. RR_MX (hdr name dns_TypeMX rrset) (mx_Preference mx) (mx_Host mx))
               (rs_MX rrset)
      else if rs_Type rrset = TypeSRV
        then map (\<lambda>s. RR_SRV (hdr name dns_TypeSRV rrset) (srv_Priority s) (srv_Weight s)
                        (srv_Port s) (srv_Target s)) (rs_SRV rrset)
      else [])"

text \<open>The wildcard owners tried for \<open>name\<close>: \<open>"*." + strings.Join(labels[i+1:], ".") + "."\<close>
  for \<open>i = 0, ..., len(labels) - 2\<close>.\<close>

definition wildcard_names :: "string \<Rightarrow> string list" where
  "wildcard_names name =
     (let labels = SplitDomainName name
      in map (\<lambda>i. ''*.'' @ Join (drop (i + 1) labels) ''.'' @ ''.'') [0..<length labels - 1])"

fun find_wildcard ::
  "ZoneIndex \<Rightarrow> string \<Rightarrow> 16 word \<Rightarrow> string list \<Rightarrow> (RR list \<times> 32 word) option" where
  "find_wildcard zi name qtype [] = None"
| "find_wildcard zi name qtype (wc # wcs) =
     (case zi_ByName zi wc of
        None \<Rightarrow> find_wildcard zi name qtype wcs
      | Some m \<Rightarrow>
          (case m (toRRType qtype) of
             Some rr \<Rightarrow> Some (toRR name rr, rs_TTL rr)
           | None \<Rightarrow>
               (case m TypeCNAME of
                  Some rr \<Rightarrow> Some (toRR name rr, rs_TTL rr)
                | None \<Rightarrow> find_wildcard zi name qtype wcs)))"

text \<open>\<open>findRRSet\<close> returns \<open>(rrs, ttl, ok)\<close>; \<open>None\<close> is \<open>ok = false\<close>.\<close>

definition findRRSet :: "ZoneIndex \<Rightarrow> string \<Rightarrow> 16 word \<Rightarrow> (RR list \<times> 32 word) option" where
  "findRRSet zi name qtype =
     (case (case zi_ByName zi name of None \<Rightarrow> None | Some m \<Rightarrow> m (toRRType qtype)) of
        Some rr \<Rightarrow> Some (toRR name rr, rs_TTL rr)
      | None \<Rightarrow> find_wildcard zi name qtype (wildcard_names name))"

definition hasName :: "ZoneIndex \<Rightarrow> string \<Rightarrow> bool" where
  "hasName zi name \<longleftrightarrow> zi_ByName zi name \<noteq> None"

definition hasWildcardCandidate :: "ZoneIndex \<Rightarrow> string \<Rightarrow> bool" where
  "hasWildcardCandidate zi name \<longleftrightarrow> list_ex (\<lambda>wc. zi_ByName zi wc \<noteq> None) (wildcard_names name)"

definition lookupAorAAAA :: "ZoneIndex \<Rightarrow> string \<Rightarrow> RR list" where
  "lookupAorAAAA zi host =
     (let name = ToLower (Fqdn host)
      in case zi_ByName zi name of
           None \<Rightarrow> []
         | Some m \<Rightarrow>
             (case m TypeA of None \<Rightarrow> [] | Some rr \<Rightarrow> toRR name rr)
             @ (case m TypeAAAA of None \<Rightarrow> [] | Some rr \<Rightarrow> toRR name rr))"

fun addAdditionals_loop :: "ZoneIndex \<Rightarrow> RR list \<Rightarrow> RR list \<Rightarrow> RR list" where
  "addAdditionals_loop zi [] extra = extra"
| "addAdditionals_loop zi (RR_MX h p mx # answers) extra =
     addAdditionals_loop zi answers (extra @ lookupAorAAAA zi mx)"
| "addAdditionals_loop zi (RR_NS h ns # answers) extra =
     addAdditionals_loop zi answers (extra @ lookupAorAAAA zi ns)"
| "addAdditionals_loop zi (_ # answers) extra = addAdditionals_loop zi answers extra"

definition addAdditionals :: "ZoneIndex \<Rightarrow> RR list \<Rightarrow> RR list" where
  "addAdditionals zi answers = addAdditionals_loop zi answers []"

definition makeSOA :: "ZoneIndex \<Rightarrow> RR" where
  "makeSOA zi =
     RR_SOA \<lparr>h_Name = zi_ZoneFQDN zi, h_Rrtype = dns_TypeSOA, h_Class = dns_ClassINET,
             h_Ttl = zi_TTLDef zi\<rparr>
       (soa_MName (zi_SOA zi)) (soa_RName (zi_SOA zi)) (zi_Serial zi)
       (soa_Refresh (zi_SOA zi)) (soa_Retry (zi_SOA zi)) (soa_Expire (zi_SOA zi))
       (soa_NegativeTTL (zi_SOA zi))"

text \<open>The handler's own \<open>min\<close>, which treats 0 as absent.\<close>

definition min_ttl :: "32 word \<Rightarrow> 32 word \<Rightarrow> 32 word" where
  "min_ttl a b = (if a = 0 then b else if b = 0 then a else if a < b then a else b)"

text \<open>
  The \<open>for i := 0; i < maxCNAME; i++\<close> loop of \<open>lookup\<close>; the third argument is
  \<open>maxCNAME - i\<close>. \<open>Terminal\<close> is a \<open>return\<close> inside the loop, \<open>Fallthrough cur\<close> is leaving it
  by \<open>break\<close> or because \<open>i\<close> reached \<open>maxCNAME\<close> (with the value of \<open>cur\<close> then), and \<open>Panicked\<close> is the run-time panic of
  \<open>rrset[0].(*dns.CNAME)\<close> on an empty slice or a record that is not a CNAME.
\<close>

datatype loop_exit = Terminal "RR list" "RR list" int "32 word" | Fallthrough string | Panicked

fun lookup_loop ::
  "ZoneIndex \<Rightarrow> 16 word \<Rightarrow> nat \<Rightarrow> string \<Rightarrow> string set \<Rightarrow> RR list \<Rightarrow> 32 word \<Rightarrow> loop_exit" where
  "lookup_loop zi qtype 0 cur visited ans ttl = Fallthrough cur"
| "lookup_loop zi qtype (Suc n) cur visited ans ttl =
     (case findRRSet zi cur qtype of
        Some (rrset, t) \<Rightarrow> Terminal (ans @ rrset) (addAdditionals zi rrset) RcodeSuccess t
      | None \<Rightarrow>
          if cur \<in> visited then Terminal [] [] RcodeServerFailure 0
          else
            (case findRRSet zi cur dns_TypeCNAME of
               Some (rrset, t) \<Rightarrow>
                 (case rrset of
                    RR_CNAME h target # _ \<Rightarrow>
                      lookup_loop zi qtype n (ToLower target) (insert cur visited) (ans @ rrset)
                        (let ttl' = min_ttl ttl t in if ttl' = 0 then t else ttl')
                  | _ \<Rightarrow> Panicked)
             | None \<Rightarrow> Fallthrough cur))"

definition maxCNAME :: nat where "maxCNAME = 8"

definition lookup ::
  "ZoneIndex \<Rightarrow> string \<Rightarrow> 16 word \<Rightarrow> (RR list \<times> RR list \<times> int \<times> 32 word) option" where
  "lookup zi qname qtype =
     (let name = ToLower (Fqdn qname)
      in case lookup_loop zi qtype maxCNAME name {} [] 0 of
           Terminal ans addl rcode ttl \<Rightarrow> Some (ans, addl, rcode, ttl)
         | Panicked \<Rightarrow> None
         | Fallthrough cur \<Rightarrow>
             if hasName zi name \<or> hasWildcardCandidate zi name
             then Some ([], [], RcodeSuccess, 0)
             else Some ([], [], RcodeNameError, 0))"

definition second :: int where "second = 1000000000"

text \<open>
  The part of \<open>ServeDNS\<close> that runs once \<open>GetZoneForName\<close> has found the zone \<open>zi\<close>:
  \<open>resp\<close> is the reply prepared so far; the result is the message written and the caches
  after the call (\<open>None\<close> when \<open>lookup\<close> panics).
\<close>

definition ServeDNS_inzone ::
  "int \<Rightarrow> Msg RRCaches \<Rightarrow> ZoneIndex \<Rightarrow> string \<Rightarrow> 16 word \<Rightarrow> Msg \<Rightarrow> (Msg \<times> Msg RRCaches) option" where
  "ServeDNS_inzone now c zi qname qtype resp0 =
     (case lookup zi qname qtype of
        None \<Rightarrow> None
      | Some (ans, addl, rcode, ttl) \<Rightarrow>
          let resp1 = resp0\<lparr>m_Rcode := rcode\<rparr>;
              resp2 = (if ans \<noteq> [] then resp1\<lparr>m_Answer := ans\<rparr> else resp1);
              resp = (if addl \<noteq> [] then resp2\<lparr>m_Extra := m_Extra resp2 @ addl\<rparr> else resp2)
          in if rcode = RcodeSuccess \<and> ans \<noteq> []
             then Some (resp, PutPositive now c qname qtype resp (uint ttl * second))
             else if rcode \<noteq> RcodeSuccess
             then Some (resp\<lparr>m_Ns := m_Ns resp @ [makeSOA zi]\<rparr>,
                        PutNegative now c qname qtype rcode
                          (uint (soa_NegativeTTL (zi_SOA zi)) * second))
             else Some (resp, c))"

section \<open>Reload coordinator (cmd/smart-dns)\<close>

text \<open>
  \<open>file\<close> is the outcome of \<open>readZonePath\<close>: \<open>None\<close> when the file cannot be read or is
  not valid JSON. The state is the zone store and the cache.
\<close>

definition OnZoneUpdated ::
  "(string \<Rightarrow> IP option) \<Rightarrow> ZoneFile option \<Rightarrow> Store \<times> 'a RRCaches \<Rightarrow> Store \<times> 'a RRCaches" where
  "OnZoneUpdated parseIP file st =
     (case file of
        None \<Rightarrow> st
      | Some zf \<Rightarrow>
          (case ToIndex parseIP zf of
             Inl err \<Rightarrow> st
           | Inr zi \<Rightarrow>
               (case fst (GetZoneForName (fst st) (zi_ZoneFQDN zi)) of
                  Some old \<Rightarrow>
                    if zi_Serial zi \<le> zi_Serial old then st
                    else (SwapZone (fst st) zi, InvalidateZone (snd st) (zi_ZoneFQDN zi))
                | None \<Rightarrow> (SwapZone (fst st) zi, InvalidateZone (snd st) (zi_ZoneFQDN zi)))))"

definition OnZoneRemoved :: "string \<Rightarrow> Store \<times> 'a RRCaches \<Rightarrow> Store \<times> 'a RRCaches" where
  "OnZoneRemoved zoneName st =
     (RemoveZone (fst st) (zoneName @ ''.''), InvalidateZone (snd st) (zoneName @ ''.''))"

section \<open>Example zones\<close>

text \<open>
  Zone files used to evaluate the loader and the query engine, each with the index the
  loader builds from it. \<open>parseIP_example\<close> is \<open>net.ParseIP\<close> at the two addresses
  the examples use (its result is the 16-byte form).
\<close>

definition parseIP_example :: "string \<Rightarrow> IP option" where
  "parseIP_example s =
     (if s = ''192.0.2.1'' then Some [0, 0, 0, 0, 0, 0, 0, 0, 0, 0, 255, 255, 192, 0, 2, 1]
      else if s = ''2001:db8::10''
        then Some [32, 1, 13, 184, 0, 0, 0, 0, 0, 0, 0, 0, 0, 0, 0, 16]
      else None)"

definition example_soa :: SOA where
  "example_soa =
     \<lparr>soa_MName = ''ns1.example.com.'', soa_RName = ''hostmaster.example.com.'',
      soa_Refresh = 3600, soa_Retry = 600, soa_Expire = 86400, soa_NegativeTTL = 120\<rparr>"

definition example_zone :: "string \<Rightarrow> 32 word \<Rightarrow> RawRecord list \<Rightarrow> ZoneFile" where
  "example_zone zone serial records =
     \<lparr>zf_Zone = zone, zf_Serial = serial, zf_TTLDefault = 300, zf_SOA = example_soa,
      zf_NS = [''ns1.example.com.''], zf_Records = records\<rparr>"

definition example_index :: "string \<Rightarrow> 32 word \<Rightarrow> NameMap \<Rightarrow> ZoneIndex" where
  "example_index zone serial by =
     \<lparr>zi_ZoneFQDN = zone, zi_Serial = serial, zi_SOA = example_soa, zi_TTLDef = 300,
      zi_ByName = by\<rparr>"

definition apex_ns :: RRSet where
  "apex_ns = (new_RRSet TypeNS 300)\<lparr>rs_NS := [''ns1.example.com.'']\<rparr>"

text \<open>A TXT record and then a CNAME at the same name.\<close>

definition zf_mixed :: ZoneFile where
  "zf_mixed = example_zone ''example.com'' 1
     [\<lparr>raw_Name = ''www'', raw_Type = ''TXT'', raw_TTL = None, raw_Value = [],
       raw_Values = JArr [JStr ''hello'']\<rparr>,
      \<lparr>raw_Name = ''www'', raw_Type = ''CNAME'', raw_TTL = None, raw_Value = ''@'',
       raw_Values = JNull\<rparr>]"

definition zi_mixed :: ZoneIndex where
  "zi_mixed = example_index ''example.com.'' 1
     [''example.com.'' \<mapsto> [TypeNS \<mapsto> apex_ns],
      ''www.example.com.'' \<mapsto>
        [TypeTXT \<mapsto> (new_RRSet TypeTXT 300)\<lparr>rs_TXT := [''hello'']\<rparr>,
         TypeCNAME \<mapsto> (new_RRSet TypeCNAME 300)\<lparr>rs_CNAME := ''example.com.''\<rparr>]]"

text \<open>A CNAME whose target is not in the zone data.\<close>

definition zf_dangling :: ZoneFile where
  "zf_dangling = example_zone ''example.com'' 1
     [\<lparr>raw_Name = ''www'', raw_Type = ''CNAME'', raw_TTL = None, raw_Value = ''gone'',
       raw_Values = JNull\<rparr>]"

definition zi_dangling :: ZoneIndex where
  "zi_dangling = example_index ''example.com.'' 1
     [''example.com.'' \<mapsto> [TypeNS \<mapsto> apex_ns],
      ''www.example.com.'' \<mapsto> [TypeCNAME \<mapsto> (new_RRSet TypeCNAME 300)\<lparr>rs_CNAME := ''gone.example.com.''\<rparr>]]"

text \<open>A parent zone with a high serial, and a zone below it with a low serial.\<close>

definition zf_com :: ZoneFile where
  "zf_com = example_zone ''com'' 100 []"

definition zi_com :: ZoneIndex where
  "zi_com = example_index ''com.'' 100 [''com.'' \<mapsto> [TypeNS \<mapsto> apex_ns]]"

definition zf_plain :: ZoneFile where
  "zf_plain = example_zone ''example.com'' 5 []"

definition zi_plain :: ZoneIndex where
  "zi_plain = example_index ''example.com.'' 5 [''example.com.'' \<mapsto> [TypeNS \<mapsto> apex_ns]]"

text \<open>A chain of nine CNAMEs without a loop, ending at a name with a TXT record.\<close>

definition zf_deep :: ZoneFile where
  "zf_deep = example_zone ''example.com'' 1
     [\<lparr>raw_Name = ''a'', raw_Type = ''CNAME'', raw_TTL = None, raw_Value = ''b'',
       raw_Values = JNull\<rparr>,
      \<lparr>raw_Name = ''b'', raw_Type = ''CNAME'', raw_TTL = None, raw_Value = ''c'',
       raw_Values = JNull\<rparr>,
      \<lparr>raw_Name = ''c'', raw_Type = ''CNAME'', raw_TTL = None, raw_Value = ''d'',
       raw_Values = JNull\<rparr>,
      \<lparr>raw_Name = ''d'', raw_Type = ''CNAME'', raw_TTL = None, raw_Value = ''e'',
       raw_Values = JNull\<rparr>,
      \<lparr>raw_Name = ''e'', raw_Type = ''CNAME'', raw_TTL = None, raw_Value = ''f'',
       raw_Values = JNull\<rparr>,
      \<lparr>raw_Name = ''f'', raw_Type = ''CNAME'', raw_TTL = None, raw_Value = ''g'',
       raw_Values = JNull\<rparr>,
      \<lparr>raw_Name = ''g'', raw_Type = ''CNAME'', raw_TTL = None, raw_Value = ''h'',
       raw_Values = JNull\<rparr>,
      \<lparr>raw_Name = ''h'', raw_Type = ''CNAME'', raw_TTL = None, raw_Value = ''i'',
       raw_Values = JNull\<rparr>,
      \<lparr>raw_Name = ''i'', raw_Type = ''CNAME'', raw_TTL = None, raw_Value = ''j'',
       raw_Values = JNull\<rparr>,
      \<lparr>raw_Name = ''j'', raw_Type = ''TXT'', raw_TTL = None, raw_Value = [],
       raw_Values = JArr [JStr ''end'']\<rparr>]"

definition zi_deep :: ZoneIndex where
  "zi_deep = example_index ''example.com.'' 1
     [''example.com.'' \<mapsto> [TypeNS \<mapsto> apex_ns],
      ''a.example.com.'' \<mapsto> [TypeCNAME \<mapsto> (new_RRSet TypeCNAME 300)\<lparr>rs_CNAME := ''b.example.com.''\<rparr>],
      ''b.example.com.'' \<mapsto> [TypeCNAME \<mapsto> (new_RRSet TypeCNAME 300)\<lparr>rs_CNAME := ''c.example.com.''\<rparr>],
      ''c.example.com.'' \<mapsto> [TypeCNAME \<mapsto> (new_RRSet TypeCNAME 300)\<lparr>rs_CNAME := ''d.example.com.''\<rparr>],
      ''d.example.com.'' \<mapsto> [TypeCNAME \<mapsto> (new_RRSet TypeCNAME 300)\<lparr>rs_CNAME := ''e.example.com.''\<rparr>],
      ''e.example.com.'' \<mapsto> [TypeCNAME \<mapsto> (new_RRSet TypeCNAME 300)\<lparr>rs_CNAME := ''f.example.com.''\<rparr>],
      ''f.example.com.'' \<mapsto> [TypeCNAME \<mapsto> (new_RRSet TypeCNAME 300)\<lparr>rs_CNAME := ''g.example.com.''\<rparr>],
      ''g.example.com.'' \<mapsto> [TypeCNAME \<mapsto> (new_RRSet TypeCNAME 300)\<lparr>rs_CNAME := ''h.example.com.''\<rparr>],
      ''h.example.com.'' \<mapsto> [TypeCNAME \<mapsto> (new_RRSet TypeCNAME 300)\<lparr>rs_CNAME := ''i.example.com.''\<rparr>],
      ''i.example.com.'' \<mapsto> [TypeCNAME \<mapsto> (new_RRSet TypeCNAME 300)\<lparr>rs_CNAME := ''j.example.com.''\<rparr>],
      ''j.example.com.'' \<mapsto> [TypeTXT \<mapsto> (new_RRSet TypeTXT 300)\<lparr>rs_TXT := [''end'']\<rparr>]]"

text \<open>Two CNAMEs that point at each other.\<close>

definition zf_loop :: ZoneFile where
  "zf_loop = example_zone ''example.com'' 1
     [\<lparr>raw_Name = ''a'', raw_Type = ''CNAME'', raw_TTL = None, raw_Value = ''b'',
       raw_Values = JNull\<rparr>,
      \<lparr>raw_Name = ''b'', raw_Type = ''CNAME'', raw_TTL = None, raw_Value = ''a'',
       raw_Values = JNull\<rparr>]"

definition zi_loop :: ZoneIndex where
  "zi_loop = example_index ''example.com.'' 1
     [''example.com.'' \<mapsto> [TypeNS \<mapsto> apex_ns],
      ''a.example.com.'' \<mapsto> [TypeCNAME \<mapsto> (new_RRSet TypeCNAME 300)\<lparr>rs_CNAME := ''b.example.com.''\<rparr>],
      ''b.example.com.'' \<mapsto> [TypeCNAME \<mapsto> (new_RRSet TypeCNAME 300)\<lparr>rs_CNAME := ''a.example.com.''\<rparr>]]"

text \<open>A CNAME with TTL 60 pointing at a TXT RRset with TTL 300.\<close>

definition zf_ttl :: ZoneFile where
  "zf_ttl = example_zone ''example.com'' 1
     [\<lparr>raw_Name = ''@'', raw_Type = ''TXT'', raw_TTL = Some 300, raw_Value = [],
       raw_Values = JArr [JStr ''v=spf1 -all'']\<rparr>,
      \<lparr>raw_Name = ''www'', raw_Type = ''CNAME'', raw_TTL = Some 60, raw_Value = ''@'',
       raw_Values = JNull\<rparr>]"

definition zi_ttl :: ZoneIndex where
  "zi_ttl = example_index ''example.com.'' 1
     [''example.com.'' \<mapsto>
        [TypeNS \<mapsto> apex_ns, TypeTXT \<mapsto> (new_RRSet TypeTXT 300)\<lparr>rs_TXT := [''v=spf1 -all'']\<rparr>],
      ''www.example.com.'' \<mapsto> [TypeCNAME \<mapsto> (new_RRSet TypeCNAME 60)\<lparr>rs_CNAME := ''example.com.''\<rparr>]]"

text \<open>Two MX records that name the same host, which has an address in the zone.\<close>

definition zf_mx :: ZoneFile where
  "zf_mx = example_zone ''example.com'' 1
     [\<lparr>raw_Name = ''@'', raw_Type = ''MX'', raw_TTL = None, raw_Value = [],
       raw_Values = JArr [JObj [(''preference'', JNum 10), (''host'', JStr ''mail.example.com.'')],
                          JObj [(''preference'', JNum 20), (''host'', JStr ''mail.example.com.'')]]\<rparr>,
      \<lparr>raw_Name = ''mail'', raw_Type = ''A'', raw_TTL = None, raw_Value = [],
       raw_Values = JArr [JStr ''192.0.2.1'']\<rparr>]"

definition zi_mx :: ZoneIndex where
  "zi_mx = example_index ''example.com.'' 1
     [''example.com.'' \<mapsto>
        [TypeNS \<mapsto> apex_ns,
         TypeMX \<mapsto> (new_RRSet TypeMX 300)\<lparr>rs_MX :=
           [\<lparr>mx_Preference = 10, mx_Host = ''mail.example.com.''\<rparr>,
            \<lparr>mx_Preference = 20, mx_Host = ''mail.example.com.''\<rparr>]\<rparr>],
      ''mail.example.com.'' \<mapsto>
        [TypeA \<mapsto> (new_RRSet TypeA 300)\<lparr>rs_A := [[192, 0, 2, 1]]\<rparr>]]"

text \<open>An MX record whose host has both an A and an AAAA RRset in the zone.\<close>

definition zf_dual :: ZoneFile where
  "zf_dual = example_zone ''example.com'' 1
     [\<lparr>raw_Name = ''@'', raw_Type = ''MX'', raw_TTL = None, raw_Value = [],
       raw_Values = JArr [JObj [(''preference'', JNum 10), (''host'', JStr ''mail.example.com.'')]]\<rparr>,
      \<lparr>raw_Name = ''mail'', raw_Type = ''A'', raw_TTL = None, raw_Value = [],
       raw_Values = JArr [JStr ''192.0.2.1'']\<rparr>,
      \<lparr>raw_Name = ''mail'', raw_Type = ''AAAA'', raw_TTL = None, raw_Value = [],
       raw_Values = JArr [JStr ''2001:db8::10'']\<rparr>]"

definition mail_a_rrset :: RRSet where
  "mail_a_rrset = (new_RRSet TypeA 300)\<lparr>rs_A := [[192, 0, 2, 1]]\<rparr>"

definition mail_aaaa_rrset :: RRSet where
  "mail_aaaa_rrset =
     (new_RRSet TypeAAAA 300)\<lparr>rs_AAAA := [[32, 1, 13, 184, 0, 0, 0, 0, 0, 0, 0, 0, 0, 0, 0, 16]]\<rparr>"

definition zi_dual :: ZoneIndex where
  "zi_dual = example_index ''example.com.'' 1
     [''example.com.'' \<mapsto>
        [TypeNS \<mapsto> apex_ns,
         TypeMX \<mapsto> (new_RRSet TypeMX 300)\<lparr>rs_MX :=
           [\<lparr>mx_Preference = 10, mx_Host = ''mail.example.com.''\<rparr>]\<rparr>],
      ''mail.example.com.'' \<mapsto> [TypeA \<mapsto> mail_a_rrset, TypeAAAA \<mapsto> mail_aaaa_rrset]]"

text \<open>A record whose absolute name lies outside the zone.\<close>

definition zf_outside :: ZoneFile where
  "zf_outside = example_zone ''example.com'' 1
     [\<lparr>raw_Name = ''other.org.'', raw_Type = ''TXT'', raw_TTL = None, raw_Value = [],
       raw_Values = JArr [JStr ''x'']\<rparr>]"

definition zi_outside :: ZoneIndex where
  "zi_outside = example_index ''example.com.'' 1
     [''example.com.'' \<mapsto> [TypeNS \<mapsto> apex_ns],
      ''other.org.'' \<mapsto> [TypeTXT \<mapsto> (new_RRSet TypeTXT 300)\<lparr>rs_TXT := [''x'']\<rparr>]]"

text \<open>Records the examples expect in answers, a prepared reply and an empty cache pair.\<close>

definition mail_a :: RR where
  "mail_a =
     RR_A \<lparr>h_Name = ''mail.example.com.'', h_Rrtype = 1, h_Class = 1, h_Ttl = 300\<rparr>
       [192, 0, 2, 1]"

definition mail_aaaa :: RR where
  "mail_aaaa =
     RR_AAAA \<lparr>h_Name = ''mail.example.com.'', h_Rrtype = 28, h_Class = 1, h_Ttl = 300\<rparr>
       [32, 1, 13, 184, 0, 0, 0, 0, 0, 0, 0, 0, 0, 0, 0, 16]"

definition apex_mx :: "16 word \<Rightarrow> RR" where
  "apex_mx p =
     RR_MX \<lparr>h_Name = ''example.com.'', h_Rrtype = 15, h_Class = 1, h_Ttl = 300\<rparr> p
       ''mail.example.com.''"

definition www_cname :: RR where
  "www_cname =
     RR_CNAME \<lparr>h_Name = ''www.example.com.'', h_Rrtype = 5, h_Class = 1, h_Ttl = 60\<rparr>
       ''example.com.''"

definition apex_txt :: RR where
  "apex_txt =
     RR_TXT \<lparr>h_Name = ''example.com.'', h_Rrtype = 16, h_Class = 1, h_Ttl = 300\<rparr>
       [''v=spf1 -all'']"

definition reply0 :: Msg where
  "reply0 =
     \<lparr>m_Id = 7, m_Rcode = 0, m_Authoritative = True, m_RecursionAvailable = False,
      m_Answer = [], m_Ns = [], m_Extra = []\<rparr>"

definition caches0 :: "Msg RRCaches" where
  "caches0 = \<lparr>pos = \<lparr>lru_size = 100, lru_items = []\<rparr>, neg = \<lparr>lru_size = 10, lru_items = []\<rparr>\<rparr>"

section \<open>The CNAME chain of a query\<close>

text \<open>
  The names the resolution loop visits, as the specification describes them:
  \<open>cname_target\<close> is the name the loop moves to from \<open>cur\<close> (when no RRset of the
  queried type is found there and a CNAME is), and \<open>chain zi qtype name k\<close> is the
  name reached from \<open>name\<close> after following \<open>k\<close> CNAMEs.
\<close>

definition cname_target :: "ZoneIndex \<Rightarrow> 16 word \<Rightarrow> string \<Rightarrow> string option" where
  "cname_target zi qtype cur =
     (case findRRSet zi cur qtype of
        Some _ \<Rightarrow> None
      | None \<Rightarrow>
          (case findRRSet zi cur dns_TypeCNAME of
             Some (RR_CNAME h target # _, t) \<Rightarrow> Some (ToLower target)
           | _ \<Rightarrow> None))"

fun chain :: "ZoneIndex \<Rightarrow> 16 word \<Rightarrow> string \<Rightarrow> nat \<Rightarrow> string option" where
  "chain zi qtype name 0 = Some name"
| "chain zi qtype name (Suc k) =
     (case cname_target zi qtype name of
        None \<Rightarrow> None
      | Some c \<Rightarrow> chain zi qtype c k)"

section \<open>Facts about strings\<close>

lemma HasSuffix_iff_suffix: "HasSuffix s suf \<longleftrightarrow> suffix suf s"
proof
  assume "HasSuffix s suf"
  then have "s = take (length s - length suf) s @ suf"
    by (metis HasSuffix_def append_take_drop_id)
  then show "suffix suf s" by (metis suffixI)
next
  assume "suffix suf s"
  then obtain p where "s = p @ suf" by (auto simp: suffix_def)
  then show "HasSuffix s suf" by (simp add: HasSuffix_def)
qed

lemma ToLower_append: "ToLower (a @ b) = ToLower a @ ToLower b"
  by (simp add: ToLower_def)

lemma length_ToLower: "length (ToLower s) = length s"
  by (simp add: ToLower_def)

section \<open>The example indexes are what the loader builds\<close>

lemmas loader_defs = ToIndex_def Validate_def MustFQDN_def HasSuffix_def ToLower_def lower_char_def
  ToUpper_def upper_char_def index_record_def NormalizeFQDN_def ensureName_def ensureTTL_def
  ttlOrDef_def appendRRSet_def new_RRSet_def hasOtherTypes_def normalizeFQDNs_def Let_def
  To4_def To16_def to_uint16_def
  example_zone_def example_index_def example_soa_def apex_ns_def parseIP_example_def

lemma zi_mixed_loaded: "ToIndex parseIP_example zf_mixed = Inr zi_mixed"
  by (simp add: zf_mixed_def zi_mixed_def loader_defs)

lemma zi_dangling_loaded: "ToIndex parseIP_example zf_dangling = Inr zi_dangling"
  by (simp add: zf_dangling_def zi_dangling_def loader_defs)

lemma zi_com_loaded: "ToIndex parseIP_example zf_com = Inr zi_com"
  by (simp add: zf_com_def zi_com_def loader_defs)

lemma zi_plain_loaded: "ToIndex parseIP_example zf_plain = Inr zi_plain"
  by (simp add: zf_plain_def zi_plain_def loader_defs)

lemma zi_deep_loaded: "ToIndex parseIP_example zf_deep = Inr zi_deep"
  by (simp add: zf_deep_def zi_deep_def loader_defs)

lemma zi_loop_loaded: "ToIndex parseIP_example zf_loop = Inr zi_loop"
  by (simp add: zf_loop_def zi_loop_def loader_defs)

lemma zi_ttl_loaded: "ToIndex parseIP_example zf_ttl = Inr zi_ttl"
  by (simp add: zf_ttl_def zi_ttl_def loader_defs)

lemma zi_mx_loaded: "ToIndex parseIP_example zf_mx = Inr zi_mx"
  by (simp add: zf_mx_def zi_mx_def loader_defs)

lemma zi_dual_loaded: "ToIndex parseIP_example zf_dual = Inr zi_dual"
  by (simp add: zf_dual_def zi_dual_def mail_a_rrset_def mail_aaaa_rrset_def loader_defs)

lemma zi_outside_loaded: "ToIndex parseIP_example zf_outside = Inr zi_outside"
  by (simp add: zf_outside_def zi_outside_def loader_defs)

section \<open>Facts about the zone store\<close>

lemma GetZone_loop_spec:
  "GetZone_loop name s best z = (z', best') \<Longrightarrow>
     (best' = best \<and> z' = z \<and> (\<forall>k\<in>fst ` set s. HasSuffix name k \<longrightarrow> length k \<le> length best))
   \<or> (z' = map_of s best' \<and> z' \<noteq> None \<and> HasSuffix name best' \<and> length best < length best'
        \<and> (\<forall>k\<in>fst ` set s. HasSuffix name k \<longrightarrow> length k \<le> length best'))"
proof (induction s arbitrary: best z)
  case Nil
  then show ?case by simp
next
  case (Cons p rest)
  obtain zone zi where p: "p = (zone, zi)" by (cases p)
  show ?case
  proof (cases "HasSuffix name zone \<and> length best < length zone")
    case True
    with Cons.prems p have "GetZone_loop name rest zone (Some zi) = (z', best')" by simp
    from Cons.IH [OF this] True p show ?thesis by auto
  next
    case False
    with Cons.prems p have "GetZone_loop name rest best z = (z', best')" by (auto split: if_splits)
    from Cons.IH [OF this] False p show ?thesis by auto
  qed
qed

lemma HasSuffix_refl: "HasSuffix s s" by (simp add: HasSuffix_def)

lemma HasSuffix_same_length:
  assumes "HasSuffix s t" and "length s \<le> length t"
  shows "t = s"
proof -
  from assms(1) have d: "drop (length s - length t) s = t"
    unfolding HasSuffix_def by blast
  from assms(2) have l: "length s - length t = 0" by simp
  from d show ?thesis unfolding l by simp
qed

lemma GetZoneForName_spec:
  "GetZoneForName s qname = (z, best) \<Longrightarrow>
     (if \<exists>k \<in> fst ` set s. k \<noteq> [] \<and> HasSuffix (ToLower qname) k
      then best \<noteq> [] \<and> HasSuffix (ToLower qname) best \<and> z = map_of s best \<and> z \<noteq> None
           \<and> (\<forall>k \<in> fst ` set s. HasSuffix (ToLower qname) k \<longrightarrow> length k \<le> length best)
      else z = None \<and> best = [])"
proof -
  assume "GetZoneForName s qname = (z, best)"
  then have "GetZone_loop (ToLower qname) s [] None = (z, best)"
    by (simp add: GetZoneForName_def)
  from GetZone_loop_spec [OF this] show ?thesis
  proof (elim disjE conjE)
    assume "best = []" "z = None"
      "\<forall>k\<in>fst ` set s. HasSuffix (ToLower qname) k \<longrightarrow> length k \<le> length ([]::string)"
    then show ?thesis by auto
  next
    assume a: "z = map_of s best" "z \<noteq> None" "HasSuffix (ToLower qname) best"
      "length ([]::string) < length best"
      "\<forall>k\<in>fst ` set s. HasSuffix (ToLower qname) k \<longrightarrow> length k \<le> length best"
    from a(1,2) obtain zi where "map_of s best = Some zi" by auto
    then have "best \<in> fst ` set s" by (metis map_of_SomeD fst_conv image_eqI)
    moreover from a(4) have "best \<noteq> []" by auto
    ultimately have "\<exists>k \<in> fst ` set s. k \<noteq> [] \<and> HasSuffix (ToLower qname) k"
      using a(3) by blast
    with a \<open>best \<noteq> []\<close> show ?thesis by simp
  qed
qed

lemma GetZoneForName_installed:
  assumes "map_of s (ToLower qname) = Some zi" and "qname \<noteq> []"
  shows "GetZoneForName s qname = (Some zi, ToLower qname)"
proof -
  obtain z best where r: "GetZoneForName s qname = (z, best)" by (cases "GetZoneForName s qname")
  from assms have k: "ToLower qname \<in> fst ` set s" "ToLower qname \<noteq> []"
    by (auto dest: map_of_SomeD simp: ToLower_def intro: rev_image_eqI)
  then have ex: "\<exists>k \<in> fst ` set s. k \<noteq> [] \<and> HasSuffix (ToLower qname) k"
    using HasSuffix_refl by blast
  with GetZoneForName_spec [OF r] have
    b: "HasSuffix (ToLower qname) best" "z = map_of s best"
       "\<forall>k \<in> fst ` set s. HasSuffix (ToLower qname) k \<longrightarrow> length k \<le> length best"
    by (simp_all split: if_splits)
  from b(3) k(1) HasSuffix_refl have "length (ToLower qname) \<le> length best" by blast
  with b(1) have "best = ToLower qname" by (rule HasSuffix_same_length)
  with b(2) assms r show ?thesis by simp
qed

lemma GetZoneForName_none:
  assumes "\<forall>k \<in> fst ` set s. k = [] \<or> \<not> HasSuffix (ToLower qname) k"
  shows "GetZoneForName s qname = (None, [])"
proof -
  obtain z best where r: "GetZoneForName s qname = (z, best)" by (cases "GetZoneForName s qname")
  from assms have "\<not> (\<exists>k \<in> fst ` set s. k \<noteq> [] \<and> HasSuffix (ToLower qname) k)" by blast
  with GetZoneForName_spec [OF r] r show ?thesis by (simp split: if_splits)
qed


section \<open>Facts about the loader\<close>

lemma lower_char_idem: "lower_char (lower_char c) = lower_char c"
  by (simp add: lower_char_def)

lemma ToLower_idem: "ToLower (ToLower s) = ToLower s"
  by (simp add: ToLower_def lower_char_idem)

lemma ToLower_Nil_iff: "ToLower s = [] \<longleftrightarrow> s = []"
  by (simp add: ToLower_def)

lemma MustFQDN_Nil_iff: "MustFQDN s = [] \<longleftrightarrow> s = []"
  by (simp add: MustFQDN_def)

lemma Validate_Inr: "Validate z0 = Inr z \<Longrightarrow> zf_Zone z \<noteq> [] \<and> zf_Records z = zf_Records z0"
  by (auto simp: Validate_def Let_def split: if_splits)

lemma ToIndex_Inr:
  assumes "ToIndex parseIP z0 = Inr zi"
  obtains z nm where "Validate z0 = Inr z"
    and "index_records parseIP (MustFQDN (zf_Zone z)) (zf_TTLDefault z)
           [ToLower (MustFQDN (zf_Zone z)) \<mapsto>
              [TypeNS \<mapsto> (new_RRSet TypeNS (ttlOrDef None (zf_TTLDefault z)))\<lparr>rs_NS := normalizeFQDNs (zf_NS z)\<rparr>]]
           (zf_Records z) = Inr nm"
    and "zi = \<lparr>zi_ZoneFQDN = ToLower (MustFQDN (zf_Zone z)), zi_Serial = zf_Serial z,
                zi_SOA = zf_SOA z, zi_TTLDef = zf_TTLDefault z, zi_ByName = nm\<rparr>"
proof -
  from assms obtain z where v: "Validate z0 = Inr z"
    by (auto simp: ToIndex_def split: sum.splits)
  then have ns: "zf_NS z \<noteq> []" by (auto simp: Validate_def Let_def split: if_splits)
  from assms v ns show ?thesis
    by (auto simp: ToIndex_def Let_def ensureName_def split: sum.splits intro: that)
qed

lemma ToIndex_ZoneFQDN:
  assumes "ToIndex parseIP z0 = Inr zi"
  shows "zi_ZoneFQDN zi \<noteq> []" and "ToLower (zi_ZoneFQDN zi) = zi_ZoneFQDN zi"
proof -
  from assms obtain z nm where v: "Validate z0 = Inr z"
    and zi: "zi = \<lparr>zi_ZoneFQDN = ToLower (MustFQDN (zf_Zone z)), zi_Serial = zf_Serial z,
                zi_SOA = zf_SOA z, zi_TTLDef = zf_TTLDefault z, zi_ByName = nm\<rparr>"
    by (rule ToIndex_Inr)
  from Validate_Inr [OF v] show "zi_ZoneFQDN zi \<noteq> []"
    by (simp add: zi ToLower_Nil_iff MustFQDN_Nil_iff)
  show "ToLower (zi_ZoneFQDN zi) = zi_ZoneFQDN zi" by (simp add: zi ToLower_idem)
qed

section \<open>Zone selection (C5, C10)\<close>

text \<open>
  C5, as the code has it. \<open>GetZoneForName\<close> returns the zone whose FQDN is the longest
  suffix of the lowercased \<open>qname\<close>, the whole name included: the suffix need not be
  proper. When a non-empty zone FQDN is a suffix of the name, the result is that zone
  and every zone FQDN that is a suffix is at most as long; otherwise the result is no zone
  and the empty name. A \<open>qname\<close> equal to the FQDN of an installed zone is matched by that
  zone itself, whatever shorter zones enclose it.
\<close>

theorem GetZoneForName_longest_suffix:
  "(GetZoneForName s qname = (z, best) \<longrightarrow>
      (if \<exists>k \<in> fst ` set s. k \<noteq> [] \<and> HasSuffix (ToLower qname) k
       then best \<noteq> [] \<and> HasSuffix (ToLower qname) best \<and> z = map_of s best \<and> z \<noteq> None
            \<and> (\<forall>k \<in> fst ` set s. HasSuffix (ToLower qname) k \<longrightarrow> length k \<le> length best)
       else z = None \<and> best = []))
   \<and> (map_of s (ToLower qname) = Some zi \<and> qname \<noteq> [] \<longrightarrow>
        GetZoneForName s qname = (Some zi, ToLower qname))"
  using GetZoneForName_spec [of s qname z best] GetZoneForName_installed [of s qname zi]
  by blast

text \<open>
  The theorem at a store with the zones \<open>com.\<close> and \<open>example.com.\<close>: a name below both is
  given to the longer one, and the name of the zone itself to that zone.
\<close>

theorem GetZoneForName_longest_suffix_witness:
  "GetZoneForName [(''com.'', zi_com), (''example.com.'', zi_plain)] ''WWW.Example.COM.''
     = (Some zi_plain, ''example.com.'')
   \<and> HasSuffix (ToLower ''WWW.Example.COM.'') ''example.com.''
   \<and> HasSuffix (ToLower ''WWW.Example.COM.'') ''com.''
   \<and> length ''com.'' \<le> length ''example.com.''
   \<and> map_of [(''com.'', zi_com), (''example.com.'', zi_plain)] (ToLower ''Example.com.'') = Some zi_plain
   \<and> GetZoneForName [(''com.'', zi_com), (''example.com.'', zi_plain)] ''Example.com.''
     = (Some zi_plain, ToLower ''Example.com.'')"
proof -
  have g: "GetZoneForName [(''com.'', zi_com), (''example.com.'', zi_plain)] ''WWW.Example.COM.''
     = (Some zi_plain, ''example.com.'')"
    by (simp add: GetZoneForName_def HasSuffix_def ToLower_def lower_char_def)
  have m: "map_of [(''com.'', zi_com), (''example.com.'', zi_plain)] (ToLower ''Example.com.'') = Some zi_plain"
    by (simp add: ToLower_def lower_char_def)
  from GetZoneForName_longest_suffix
         [of "[(''com.'', zi_com), (''example.com.'', zi_plain)]" "''WWW.Example.COM.''"
             "Some zi_plain" "''example.com.''" zi_plain]
       GetZoneForName_longest_suffix
         [of "[(''com.'', zi_com), (''example.com.'', zi_plain)]" "''Example.com.''"
             "Some zi_plain" "''example.com.''" zi_plain] g m
  show ?thesis by (simp add: HasSuffix_def ToLower_def lower_char_def)
qed

text \<open>
  C5 as stated fails: with only \<open>example.com.\<close> installed, no zone FQDN is a proper
  suffix of the query name \<open>example.com.\<close>, and yet the zone is returned.
\<close>

theorem GetZoneForName_proper_suffix_counterexample:
  "fst (GetZoneForName [(''example.com.'', zi_plain)] ''example.com.'') = Some zi_plain
   \<and> \<not> (HasSuffix (ToLower ''example.com.'') ''example.com.''
         \<and> ''example.com.'' \<noteq> ToLower ''example.com.'')"
  by (simp add: GetZoneForName_def HasSuffix_def ToLower_def lower_char_def)

text \<open>
  C10. The suffix test has no label boundary. With the zone \<open>example.com.\<close> installed,
  the name \<open>notexample.com.\<close> is neither the zone nor below it (it does not end with
  \<open>.example.com.\<close>), and \<open>GetZoneForName\<close> assigns it to the zone; a positive and a
  negative cache entry stored under that name are removed by
  \<open>InvalidateZone "example.com."\<close>.
\<close>

theorem suffix_match_ignores_label_boundary:
  "''notexample.com.'' \<noteq> ''example.com.''
   \<and> \<not> HasSuffix ''notexample.com.'' (''.'' @ ''example.com.'')
   \<and> GetZoneForName [(''example.com.'', zi_plain)] ''notexample.com.'' = (Some zi_plain, ''example.com.'')
   \<and> lru_items (pos (PutPositive 0 caches0 ''notexample.com.'' dns_TypeA reply0 (300 * second)))
        = [(key ''notexample.com.'' dns_TypeA, \<lparr>v_ExpireAt = 300 * second, v_Data = reply0\<rparr>)]
   \<and> pos (InvalidateZone (PutPositive 0 caches0 ''notexample.com.'' dns_TypeA reply0 (300 * second))
             ''example.com.'') = pos caches0
   \<and> lru_items (neg (PutNegative 0 caches0 ''notexample.com.'' dns_TypeA RcodeNameError (120 * second)))
        = [(\<lparr>nk_Name = ''notexample.com.'', nk_Type = dns_TypeA, nk_Rcode = RcodeNameError\<rparr>,
            \<lparr>v_ExpireAt = 120 * second, v_Data = ()\<rparr>)]
   \<and> neg (InvalidateZone (PutNegative 0 caches0 ''notexample.com.'' dns_TypeA RcodeNameError (120 * second))
             ''example.com.'') = neg caches0"
  by (simp add: GetZoneForName_def HasSuffix_def ToLower_def lower_char_def PutPositive_def
      PutNegative_def InvalidateZone_def caches0_def lru_Add_def lru_Keys_def lru_Remove_def key_def
      Let_def)

section \<open>Cache construction (C9)\<close>

text \<open>
  C9, as the code has it. For a capacity \<open>N\<close> of at least 10 the cache pair is built, the
  positive cache with capacity \<open>N\<close> and the negative cache with capacity \<open>N div 10\<close>,
  which is at least 1. For \<open>1 \<le> N < 10\<close> the negative capacity is 0 and
  construction fails: there is no minimum of 1.
\<close>

theorem NewRRCaches_capacity:
  "(10 \<le> N \<longrightarrow>
      (\<exists>c. (NewRRCaches N :: cache_error + 'a RRCaches) = Inr c \<and> lru_size (pos c) = N
            \<and> lru_size (neg c) = N div 10 \<and> 1 \<le> lru_size (neg c)))
   \<and> (1 \<le> N \<and> N < 10 \<longrightarrow> (NewRRCaches N :: cache_error + 'a RRCaches) = Inl ErrPositiveSize)"
proof (intro conjI impI)
  assume n: "10 \<le> N"
  then have s: "N sdiv 10 = N div 10" by (simp add: signed_divide_int_def)
  from n have "1 \<le> N div 10" by simp
  with n s show "\<exists>c. (NewRRCaches N :: cache_error + 'a RRCaches) = Inr c \<and> lru_size (pos c) = N
            \<and> lru_size (neg c) = N div 10 \<and> 1 \<le> lru_size (neg c)"
    by (simp add: NewRRCaches_def lru_New_def)
next
  assume n: "1 \<le> N \<and> N < 10"
  then have s: "N sdiv 10 = 0" by (simp add: signed_divide_int_def)
  with n show "(NewRRCaches N :: cache_error + 'a RRCaches) = Inl ErrPositiveSize"
    by (simp add: NewRRCaches_def lru_New_def)
qed

text \<open>
  The theorem at the capacities 100 and 5.
\<close>

theorem NewRRCaches_capacity_witness:
  "(10::int) \<le> 100
   \<and> (\<exists>c. (NewRRCaches 100 :: cache_error + Msg RRCaches) = Inr c \<and> lru_size (pos c) = 100
           \<and> lru_size (neg c) = 100 div 10 \<and> 1 \<le> lru_size (neg c))
   \<and> (1::int) \<le> 5 \<and> (5::int) < 10
   \<and> (NewRRCaches 5 :: cache_error + Msg RRCaches) = Inl ErrPositiveSize"
  using NewRRCaches_capacity [of 100, where 'a = Msg] NewRRCaches_capacity [of 5, where 'a = Msg]
  by simp

text \<open>
  C9 as stated fails: a capacity of 5 is at least 1 and construction does not succeed.
\<close>

theorem NewRRCaches_small_counterexample:
  "(NewRRCaches 5 :: cache_error + Msg RRCaches) = Inl ErrPositiveSize"
  by (simp add: NewRRCaches_def lru_New_def signed_divide_int_def)

section \<open>Reload (C3)\<close>

text \<open>
  C3 at a failing input. The store holds only the zone \<open>com.\<close> with serial 100, and the
  zone file of \<open>example.com.\<close> with serial 5 arrives. The zone is not installed, so the
  reload should swap it in and invalidate its cache slice, as it does when the store is
  empty. Instead nothing changes: \<open>OnZoneUpdated\<close> takes the old index from
  \<open>GetZoneForName\<close>, which returns the zone with the longest suffix, here \<open>com.\<close>, and
  compares the new serial with the serial of that other zone.
\<close>

theorem OnZoneUpdated_drops_zone_under_parent:
  "map_of [(''com.'', zi_com)] (zi_ZoneFQDN zi_plain) = None
   \<and> OnZoneUpdated parseIP_example (Some zf_plain) ([(''com.'', zi_com)], caches0)
       = ([(''com.'', zi_com)], caches0)
   \<and> OnZoneUpdated parseIP_example (Some zf_plain) ([], caches0)
       = ([(''example.com.'', zi_plain)], caches0)"
proof -
  have z: "zi_ZoneFQDN zi_plain = ''example.com.''" "zi_Serial zi_plain = 5" "zi_Serial zi_com = 100"
    by (simp_all add: zi_plain_def zi_com_def example_index_def)
  have g: "GetZoneForName [(''com.'', zi_com)] ''example.com.'' = (Some zi_com, ''com.'')"
    "GetZoneForName [] ''example.com.'' = (None, [])"
    by (simp_all add: GetZoneForName_def HasSuffix_def ToLower_def lower_char_def)
  have i: "InvalidateZone caches0 ''example.com.'' = caches0"
    by (simp add: InvalidateZone_def caches0_def lru_Keys_def)
  show ?thesis by (simp add: OnZoneUpdated_def zi_plain_loaded z g i SwapZone_def)
qed

text \<open>
  Where the serial gate does what C3 says, for a zone file the loader accepts. When the
  zone is installed, a reload whose serial is less than or equal to the installed serial
  leaves the store and the cache as they are, and one with a strictly greater serial
  swaps the zone in and invalidates its cache slice. When no installed zone FQDN is a
  suffix of the new zone's FQDN, the zone is swapped in and its cache slice invalidated.
\<close>

theorem OnZoneUpdated_serial_gate:
  assumes "ToIndex parseIP zf = Inr zi"
  shows "(map_of store (zi_ZoneFQDN zi) = Some old \<longrightarrow>
            OnZoneUpdated parseIP (Some zf) (store, c) =
              (if zi_Serial zi \<le> zi_Serial old then (store, c)
               else (SwapZone store zi, InvalidateZone c (zi_ZoneFQDN zi))))
       \<and> ((\<forall>k \<in> fst ` set store. k = [] \<or> \<not> HasSuffix (zi_ZoneFQDN zi) k) \<longrightarrow>
            OnZoneUpdated parseIP (Some zf) (store, c) =
              (SwapZone store zi, InvalidateZone c (zi_ZoneFQDN zi)))"
proof (intro conjI impI)
  note fq = ToIndex_ZoneFQDN [OF assms]
  {
    assume "map_of store (zi_ZoneFQDN zi) = Some old"
    with fq have "GetZoneForName store (zi_ZoneFQDN zi) = (Some old, zi_ZoneFQDN zi)"
      using GetZoneForName_installed [of store "zi_ZoneFQDN zi" old] by simp
    with assms show "OnZoneUpdated parseIP (Some zf) (store, c) =
              (if zi_Serial zi \<le> zi_Serial old then (store, c)
               else (SwapZone store zi, InvalidateZone c (zi_ZoneFQDN zi)))"
      by (simp add: OnZoneUpdated_def)
  }
  {
    assume "\<forall>k \<in> fst ` set store. k = [] \<or> \<not> HasSuffix (zi_ZoneFQDN zi) k"
    with fq have "GetZoneForName store (zi_ZoneFQDN zi) = (None, [])"
      using GetZoneForName_none [of store "zi_ZoneFQDN zi"] by simp
    with assms show "OnZoneUpdated parseIP (Some zf) (store, c) =
              (SwapZone store zi, InvalidateZone c (zi_ZoneFQDN zi))"
      by (simp add: OnZoneUpdated_def)
  }
qed

text \<open>
  The theorem at the zone \<open>example.com.\<close> reloaded with its own serial (nothing changes)
  and at the zone \<open>com.\<close> arriving in a store that holds only \<open>example.com.\<close> (it is
  installed).
\<close>

theorem OnZoneUpdated_serial_gate_witness:
  "ToIndex parseIP_example zf_plain = Inr zi_plain
   \<and> map_of [(''example.com.'', zi_plain)] (zi_ZoneFQDN zi_plain) = Some zi_plain
   \<and> zi_Serial zi_plain \<le> zi_Serial zi_plain
   \<and> OnZoneUpdated parseIP_example (Some zf_plain) ([(''example.com.'', zi_plain)], caches0)
       = ([(''example.com.'', zi_plain)], caches0)
   \<and> ToIndex parseIP_example zf_com = Inr zi_com
   \<and> \<not> HasSuffix (zi_ZoneFQDN zi_com) ''example.com.''
   \<and> OnZoneUpdated parseIP_example (Some zf_com) ([(''example.com.'', zi_plain)], caches0)
       = ([(''example.com.'', zi_plain), (''com.'', zi_com)], caches0)"
proof -
  have z: "zi_ZoneFQDN zi_plain = ''example.com.''" "zi_ZoneFQDN zi_com = ''com.''"
    by (simp_all add: zi_plain_def zi_com_def example_index_def)
  have i: "InvalidateZone caches0 ''com.'' = caches0"
    by (simp add: InvalidateZone_def caches0_def lru_Keys_def)
  from OnZoneUpdated_serial_gate [OF zi_plain_loaded, of "[(''example.com.'', zi_plain)]" zi_plain caches0]
       OnZoneUpdated_serial_gate [OF zi_com_loaded, of "[(''example.com.'', zi_plain)]" undefined caches0]
  show ?thesis
    by (simp add: z i zi_plain_loaded zi_com_loaded HasSuffix_def SwapZone_def)
qed

section \<open>Facts about the resolution loop\<close>

lemma cname_target_SomeD:
  assumes "cname_target zi qt cur = Some c1"
  obtains h target rest t where "findRRSet zi cur qt = None"
    and "findRRSet zi cur dns_TypeCNAME = Some (RR_CNAME h target # rest, t)"
    and "c1 = ToLower target"
  using assms
  by (auto simp: cname_target_def split: option.splits prod.splits list.splits RR.splits)

lemma chain_Suc_SomeD:
  assumes "chain zi qt name (Suc k) = Some c"
  obtains c1 where "cname_target zi qt name = Some c1" and "chain zi qt c1 k = Some c"
  using assms by (auto split: option.splits)

lemma chain_step:
  "chain zi qt name j = Some c \<Longrightarrow> j < k \<Longrightarrow> chain zi qt name k \<noteq> None
     \<Longrightarrow> cname_target zi qt c \<noteq> None"
proof (induction j arbitrary: name k)
  case 0
  then obtain k' where "k = Suc k'" by (cases k) auto
  with 0 show ?case by (auto split: option.splits)
next
  case (Suc j)
  from Suc.prems(1) obtain c1 where c1: "cname_target zi qt name = Some c1"
    and ch: "chain zi qt c1 j = Some c" by (rule chain_Suc_SomeD)
  from Suc.prems(2) obtain k' where k: "k = Suc k'" "j < k'" by (cases k) auto
  with Suc.prems(3) c1 have "chain zi qt c1 k' \<noteq> None" by simp
  from Suc.IH [OF ch k(2) this] show ?case .
qed

lemma lookup_loop_servfail:
  "k < n \<Longrightarrow> chain zi qt cur k = Some c \<Longrightarrow> findRRSet zi c qt = None
     \<Longrightarrow> c \<in> visited \<or> (\<exists>j<k. chain zi qt cur j = Some c)
     \<Longrightarrow> lookup_loop zi qt n cur visited ans ttl = Terminal [] [] RcodeServerFailure 0"
proof (induction n arbitrary: k cur visited ans ttl)
  case 0
  then show ?case by simp
next
  case (Suc n)
  show ?case
  proof (cases k)
    case 0
    with Suc.prems show ?thesis by simp
  next
    case (Suc k')
    with Suc.prems(2) have "chain zi qt cur (Suc k') = Some c" by simp
    then obtain c1 where c1: "cname_target zi qt cur = Some c1"
      and ch: "chain zi qt c1 k' = Some c" by (rule chain_Suc_SomeD)
    from c1 obtain h target rest t where f: "findRRSet zi cur qt = None"
      and g: "findRRSet zi cur dns_TypeCNAME = Some (RR_CNAME h target # rest, t)"
      and t: "c1 = ToLower target" by (rule cname_target_SomeD)
    show ?thesis
    proof (cases "cur \<in> visited")
      case True
      with f show ?thesis by simp
    next
      case False
      from Suc.prems(1) \<open>k = Suc k'\<close> have lt: "k' < n" by simp
      have mem: "c \<in> insert cur visited \<or> (\<exists>j<k'. chain zi qt c1 j = Some c)"
      proof -
        from Suc.prems(4) show ?thesis
        proof
          assume "c \<in> visited" then show ?thesis by simp
        next
          assume "\<exists>j<k. chain zi qt cur j = Some c"
          then obtain j where j: "j < k" "chain zi qt cur j = Some c" by blast
          show ?thesis
          proof (cases j)
            case 0
            with j show ?thesis by simp
          next
            case (Suc j')
            with j c1 \<open>k = Suc k'\<close> have "j' < k'" "chain zi qt c1 j' = Some c" by simp_all
            then show ?thesis by blast
          qed
        qed
      qed
      from Suc.IH [OF lt ch Suc.prems(3) mem]
      have "lookup_loop zi qt n c1 (insert cur visited) (ans @ RR_CNAME h target # rest)
              (let ttl' = min_ttl ttl t in if ttl' = 0 then t else ttl')
            = Terminal [] [] RcodeServerFailure 0" .
      with f g t False show ?thesis by simp
    qed
  qed
qed

lemma lookup_loop_numeral:
  "lookup_loop zi qtype (numeral k) cur visited ans ttl =
     (case findRRSet zi cur qtype of
        Some (rrset, t) \<Rightarrow> Terminal (ans @ rrset) (addAdditionals zi rrset) RcodeSuccess t
      | None \<Rightarrow>
          if cur \<in> visited then Terminal [] [] RcodeServerFailure 0
          else
            (case findRRSet zi cur dns_TypeCNAME of
               Some (rrset, t) \<Rightarrow>
                 (case rrset of
                    RR_CNAME h target # _ \<Rightarrow>
                      lookup_loop zi qtype (pred_numeral k) (ToLower target) (insert cur visited)
                        (ans @ rrset) (let ttl' = min_ttl ttl t in if ttl' = 0 then t else ttl')
                  | _ \<Rightarrow> Panicked)
             | None \<Rightarrow> Fallthrough cur))"
  by (simp add: numeral_eq_Suc)

lemma chain_numeral:
  "chain zi qtype name (numeral k) =
     (case cname_target zi qtype name of None \<Rightarrow> None | Some c \<Rightarrow> chain zi qtype c (pred_numeral k))"
  by (simp add: numeral_eq_Suc)

lemmas handler_defs = lookup_def maxCNAME_def findRRSet_def wildcard_names_def SplitDomainName_def
  Fqdn_def toRRType_def toRR_def hdr_def hasName_def hasWildcardCandidate_def lookupAorAAAA_def
  addAdditionals_def min_ttl_def cname_target_def
  dns_TypeA_def dns_TypeNS_def dns_TypeCNAME_def dns_TypeSOA_def dns_TypeMX_def dns_TypeTXT_def
  dns_TypeAAAA_def dns_TypeSRV_def dns_ClassINET_def
  RcodeSuccess_def RcodeNameError_def RcodeServerFailure_def
  ToLower_def lower_char_def new_RRSet_def example_index_def apex_ns_def Let_def
  lookup_loop_numeral chain_numeral

section \<open>CNAME loops and the depth limit (C4)\<close>

text \<open>
  C4, as the code has it. If, within the limit of 8 iterations, the CNAME chain of an
  in-zone query comes back to a name it has already visited (the name after \<open>k\<close> CNAMEs
  is the name after \<open>j\<close> CNAMEs, for some \<open>j < k\<close> and \<open>k\<close> below the limit), the query
  engine returns ServerFailure (RCODE 2) with no answer and no additional records.
\<close>

theorem lookup_cname_loop_servfail:
  assumes "j < k" and "k < maxCNAME"
    and "chain zi qtype (ToLower (Fqdn qname)) k = Some c"
    and "chain zi qtype (ToLower (Fqdn qname)) j = Some c"
  shows "lookup zi qname qtype = Some ([], [], RcodeServerFailure, 0)"
proof -
  from assms(3) have "chain zi qtype (ToLower (Fqdn qname)) k \<noteq> None" by simp
  from chain_step [OF assms(4) assms(1) this] have "findRRSet zi c qtype = None"
    by (auto simp: cname_target_def split: option.splits)
  moreover from assms(1,4) have "c \<in> {} \<or> (\<exists>j<k. chain zi qtype (ToLower (Fqdn qname)) j = Some c)"
    by blast
  ultimately have "lookup_loop zi qtype maxCNAME (ToLower (Fqdn qname)) {} [] 0
                     = Terminal [] [] RcodeServerFailure 0"
    using assms(2,3) by (rule lookup_loop_servfail [rotated 2])
  then show ?thesis by (simp add: lookup_def)
qed

text \<open>
  The theorem at two CNAMEs that point at each other: the chain from
  \<open>a.example.com.\<close> is back at that name after two steps.
\<close>

theorem lookup_cname_loop_servfail_witness:
  "(0::nat) < 2 \<and> 2 < maxCNAME
   \<and> chain zi_loop dns_TypeTXT (ToLower (Fqdn ''a.example.com'')) 2 = Some ''a.example.com.''
   \<and> chain zi_loop dns_TypeTXT (ToLower (Fqdn ''a.example.com'')) 0 = Some ''a.example.com.''
   \<and> lookup zi_loop ''a.example.com'' dns_TypeTXT = Some ([], [], RcodeServerFailure, 0)"
proof -
  have a: "(0::nat) < 2" "2 < maxCNAME" by (simp_all add: maxCNAME_def)
  have c2: "chain zi_loop dns_TypeTXT (ToLower (Fqdn ''a.example.com'')) 2 = Some ''a.example.com.''"
    by (simp add: zi_loop_def handler_defs)
  have c0: "chain zi_loop dns_TypeTXT (ToLower (Fqdn ''a.example.com'')) 0 = Some ''a.example.com.''"
    by (simp add: handler_defs)
  from lookup_cname_loop_servfail [OF a c2 c0] a c2 c0 show ?thesis by simp
qed

text \<open>
  C4 as stated fails for the depth limit: a chain of nine CNAMEs without a loop exceeds
  the limit of 8, and the result is NOERROR with no answer, not ServerFailure.
\<close>

theorem lookup_depth_exceeded_counterexample:
  "chain zi_deep dns_TypeTXT ''a.example.com.'' 9 = Some ''j.example.com.''
   \<and> lookup zi_deep ''a.example.com.'' dns_TypeTXT = Some ([], [], RcodeSuccess, 0)
   \<and> RcodeSuccess \<noteq> RcodeServerFailure"
  by (simp add: zi_deep_def handler_defs)

section \<open>NODATA and NXDOMAIN (C2)\<close>

text \<open>
  C2, as the code has it. When the resolution loop is left without a terminal answer,
  the decision is taken on the original query name (lowercased, fully qualified), not on
  the name \<open>cur\<close> reached after following CNAMEs: if the query name exists in the index
  or a wildcard candidate exists for it, the result is NOERROR with an empty answer;
  otherwise it is NXDOMAIN.
\<close>

theorem lookup_fallthrough_uses_qname:
  assumes "lookup_loop zi qtype maxCNAME (ToLower (Fqdn qname)) {} [] 0 = Fallthrough cur"
  shows "lookup zi qname qtype =
           Some ([], [],
                 if hasName zi (ToLower (Fqdn qname)) \<or> hasWildcardCandidate zi (ToLower (Fqdn qname))
                 then RcodeSuccess else RcodeNameError, 0)"
  using assms by (simp add: lookup_def)

text \<open>
  The theorem at a zone with one CNAME whose target is missing: the query for the
  CNAME's owner gets NOERROR, the query for the missing target gets NXDOMAIN.
\<close>

theorem lookup_fallthrough_uses_qname_witness:
  "lookup_loop zi_dangling dns_TypeA maxCNAME (ToLower (Fqdn ''www.example.com.'')) {} [] 0
     = Fallthrough ''gone.example.com.''
   \<and> hasName zi_dangling (ToLower (Fqdn ''www.example.com.''))
   \<and> lookup zi_dangling ''www.example.com.'' dns_TypeA = Some ([], [], RcodeSuccess, 0)
   \<and> lookup_loop zi_dangling dns_TypeA maxCNAME (ToLower (Fqdn ''gone.example.com.'')) {} [] 0
     = Fallthrough ''gone.example.com.''
   \<and> \<not> hasName zi_dangling (ToLower (Fqdn ''gone.example.com.''))
   \<and> \<not> hasWildcardCandidate zi_dangling (ToLower (Fqdn ''gone.example.com.''))
   \<and> lookup zi_dangling ''gone.example.com.'' dns_TypeA = Some ([], [], RcodeNameError, 0)"
proof -
  have l1: "lookup_loop zi_dangling dns_TypeA maxCNAME (ToLower (Fqdn ''www.example.com.'')) {} [] 0
     = Fallthrough ''gone.example.com.''"
    by (simp add: zi_dangling_def handler_defs)
  have l2: "lookup_loop zi_dangling dns_TypeA maxCNAME (ToLower (Fqdn ''gone.example.com.'')) {} [] 0
     = Fallthrough ''gone.example.com.''"
    by (simp add: zi_dangling_def handler_defs)
  have h: "hasName zi_dangling (ToLower (Fqdn ''www.example.com.''))"
    "\<not> hasName zi_dangling (ToLower (Fqdn ''gone.example.com.''))"
    "\<not> hasWildcardCandidate zi_dangling (ToLower (Fqdn ''gone.example.com.''))"
    by (simp_all add: zi_dangling_def handler_defs)
  from lookup_fallthrough_uses_qname [OF l1] lookup_fallthrough_uses_qname [OF l2] l1 l2 h
  show ?thesis by simp
qed

text \<open>
  C2 as stated fails: the loop is left at \<open>gone.example.com.\<close>, which is not in the
  index and has no wildcard candidate, and the result is NOERROR, not NXDOMAIN.
\<close>

theorem lookup_cur_name_counterexample:
  "lookup_loop zi_dangling dns_TypeA maxCNAME (ToLower (Fqdn ''www.example.com.'')) {} [] 0
     = Fallthrough ''gone.example.com.''
   \<and> \<not> hasName zi_dangling ''gone.example.com.''
   \<and> \<not> hasWildcardCandidate zi_dangling ''gone.example.com.''
   \<and> lookup zi_dangling ''www.example.com.'' dns_TypeA = Some ([], [], RcodeSuccess, 0)
   \<and> RcodeSuccess \<noteq> RcodeNameError"
  by (simp add: zi_dangling_def handler_defs)

section \<open>Additional-section synthesis (C7)\<close>

lemma addAdditionals_loop_concat:
  "addAdditionals_loop zi answers extra =
     extra @ concat (map (\<lambda>rr. case rr of RR_MX h p mx \<Rightarrow> lookupAorAAAA zi mx
                                   | RR_NS h ns \<Rightarrow> lookupAorAAAA zi ns
                                   | _ \<Rightarrow> []) answers)"
  by (induction zi answers extra rule: addAdditionals_loop.induct) simp_all

lemma toRR_owner: "rr \<in> set (toRR name rs) \<Longrightarrow> h_Name (Header rr) = name"
  by (auto simp: toRR_def hdr_def split: if_splits)

lemma lookupAorAAAA_owner:
  assumes "rr \<in> set (lookupAorAAAA zi host)"
  shows "h_Name (Header rr) = ToLower (Fqdn host) \<and> zi_ByName zi (ToLower (Fqdn host)) \<noteq> None"
proof (cases "zi_ByName zi (ToLower (Fqdn host))")
  case None
  with assms show ?thesis by (simp add: lookupAorAAAA_def)
next
  case (Some m)
  with assms have "rr \<in> set (case m TypeA of None \<Rightarrow> [] | Some rs \<Rightarrow> toRR (ToLower (Fqdn host)) rs)
      \<or> rr \<in> set (case m TypeAAAA of None \<Rightarrow> [] | Some rs \<Rightarrow> toRR (ToLower (Fqdn host)) rs)"
    by (auto simp: lookupAorAAAA_def Let_def)
  then have "h_Name (Header rr) = ToLower (Fqdn host)"
    by (auto split: option.splits dest: toRR_owner)
  with Some show ?thesis by simp
qed

text \<open>
  C7, as the code has it. The additional section is the concatenation, over the answer
  records in order, of the records found for the host of each MX or NS answer (nothing
  for other answers): one copy per referencing answer, with no suppression of
  duplicates. A host whose (lowercased, fully qualified) name is not in the same zone's
  index contributes nothing. A host whose name is in the index contributes the records
  of the RRset stored there under A followed by those of the RRset stored under AAAA,
  and nothing else; an A RRset gives one A record per address and an AAAA RRset one AAAA
  record per address, each owned by the host's name and carrying the RRset's TTL. Every
  record contributed for a host is owned by that name, which is in the index.
\<close>

theorem addAdditionals_per_answer:
  "addAdditionals zi answers =
     concat (map (\<lambda>rr. case rr of RR_MX h p mx \<Rightarrow> lookupAorAAAA zi mx
                          | RR_NS h ns \<Rightarrow> lookupAorAAAA zi ns
                          | _ \<Rightarrow> []) answers)
   \<and> (zi_ByName zi (ToLower (Fqdn host)) = None \<longrightarrow> lookupAorAAAA zi host = [])
   \<and> (rr \<in> set (lookupAorAAAA zi host) \<longrightarrow>
        h_Name (Header rr) = ToLower (Fqdn host) \<and> zi_ByName zi (ToLower (Fqdn host)) \<noteq> None)
   \<and> (zi_ByName zi (ToLower (Fqdn host)) = Some m \<longrightarrow>
        lookupAorAAAA zi host =
          (case m TypeA of None \<Rightarrow> [] | Some rs \<Rightarrow> toRR (ToLower (Fqdn host)) rs)
          @ (case m TypeAAAA of None \<Rightarrow> [] | Some rs \<Rightarrow> toRR (ToLower (Fqdn host)) rs))
   \<and> (rs_Type ra = TypeA \<longrightarrow>
        toRR name ra =
          map (\<lambda>ip. RR_A \<lparr>h_Name = name, h_Rrtype = dns_TypeA, h_Class = dns_ClassINET,
                           h_Ttl = rs_TTL ra\<rparr> ip) (rs_A ra))
   \<and> (rs_Type rq = TypeAAAA \<longrightarrow>
        toRR name rq =
          map (\<lambda>ip. RR_AAAA \<lparr>h_Name = name, h_Rrtype = dns_TypeAAAA, h_Class = dns_ClassINET,
                              h_Ttl = rs_TTL rq\<rparr> ip) (rs_AAAA rq))"
proof -
  have s: "zi_ByName zi (ToLower (Fqdn host)) = Some m \<longrightarrow>
        lookupAorAAAA zi host =
          (case m TypeA of None \<Rightarrow> [] | Some rs \<Rightarrow> toRR (ToLower (Fqdn host)) rs)
          @ (case m TypeAAAA of None \<Rightarrow> [] | Some rs \<Rightarrow> toRR (ToLower (Fqdn host)) rs)"
    by (simp add: lookupAorAAAA_def Let_def)
  have a: "rs_Type ra = TypeA \<longrightarrow>
        toRR name ra =
          map (\<lambda>ip. RR_A \<lparr>h_Name = name, h_Rrtype = dns_TypeA, h_Class = dns_ClassINET,
                           h_Ttl = rs_TTL ra\<rparr> ip) (rs_A ra)"
    by (simp add: toRR_def hdr_def)
  have q: "rs_Type rq = TypeAAAA \<longrightarrow>
        toRR name rq =
          map (\<lambda>ip. RR_AAAA \<lparr>h_Name = name, h_Rrtype = dns_TypeAAAA, h_Class = dns_ClassINET,
                              h_Ttl = rs_TTL rq\<rparr> ip) (rs_AAAA rq)"
    by (simp add: toRR_def hdr_def)
  have c: "addAdditionals zi answers =
     concat (map (\<lambda>rr. case rr of RR_MX h p mx \<Rightarrow> lookupAorAAAA zi mx
                          | RR_NS h ns \<Rightarrow> lookupAorAAAA zi ns
                          | _ \<Rightarrow> []) answers)"
    by (simp add: addAdditionals_def addAdditionals_loop_concat)
  have n: "zi_ByName zi (ToLower (Fqdn host)) = None \<longrightarrow> lookupAorAAAA zi host = []"
    by (simp add: lookupAorAAAA_def)
  from c n s a q lookupAorAAAA_owner [of rr zi host] show ?thesis by blast
qed

text \<open>
  The theorem at the zone whose mail host has an A and an AAAA RRset: the MX answer brings
  the A record and then the AAAA record of the host, and a host that is not in the zone
  brings nothing.
\<close>

theorem addAdditionals_per_answer_witness:
  "addAdditionals zi_dual [apex_mx 10] = [mail_a, mail_aaaa]
   \<and> zi_ByName zi_dual (ToLower (Fqdn ''absent.example.com'')) = None
   \<and> lookupAorAAAA zi_dual ''absent.example.com'' = []
   \<and> zi_ByName zi_dual (ToLower (Fqdn ''Mail.example.com''))
       = Some [TypeA \<mapsto> mail_a_rrset, TypeAAAA \<mapsto> mail_aaaa_rrset]
   \<and> rs_Type mail_a_rrset = TypeA \<and> rs_Type mail_aaaa_rrset = TypeAAAA
   \<and> lookupAorAAAA zi_dual ''Mail.example.com'' = [mail_a, mail_aaaa]
   \<and> mail_aaaa \<in> set (lookupAorAAAA zi_dual ''Mail.example.com'')
   \<and> h_Name (Header mail_aaaa) = ToLower (Fqdn ''Mail.example.com'')"
proof -
  have n: "zi_ByName zi_dual (ToLower (Fqdn ''absent.example.com'')) = None"
    by (simp add: zi_dual_def handler_defs)
  have m: "zi_ByName zi_dual (ToLower (Fqdn ''Mail.example.com''))
       = Some [TypeA \<mapsto> mail_a_rrset, TypeAAAA \<mapsto> mail_aaaa_rrset]"
    by (simp add: zi_dual_def handler_defs)
  have f: "ToLower (Fqdn ''Mail.example.com'') = ''mail.example.com.''"
          "ToLower (Fqdn ''mail.example.com.'') = ''mail.example.com.''"
    by (simp_all add: handler_defs)
  have t: "rs_Type mail_a_rrset = TypeA" "rs_Type mail_aaaa_rrset = TypeAAAA"
    by (simp_all add: mail_a_rrset_def mail_aaaa_rrset_def new_RRSet_def)
  have v: "map (\<lambda>ip. RR_A \<lparr>h_Name = ''mail.example.com.'', h_Rrtype = dns_TypeA,
                  h_Class = dns_ClassINET, h_Ttl = rs_TTL mail_a_rrset\<rparr> ip) (rs_A mail_a_rrset)
             = [mail_a]"
          "map (\<lambda>ip. RR_AAAA \<lparr>h_Name = ''mail.example.com.'', h_Rrtype = dns_TypeAAAA,
                  h_Class = dns_ClassINET, h_Ttl = rs_TTL mail_aaaa_rrset\<rparr> ip)
               (rs_AAAA mail_aaaa_rrset)
             = [mail_aaaa]"
    by (simp_all add: mail_a_rrset_def mail_aaaa_rrset_def mail_a_def mail_aaaa_def new_RRSet_def
        dns_TypeA_def dns_TypeAAAA_def dns_ClassINET_def)
  have m': "zi_ByName zi_dual ''mail.example.com.''
       = Some [TypeA \<mapsto> mail_a_rrset, TypeAAAA \<mapsto> mail_aaaa_rrset]"
    using m by (simp only: f)
  from addAdditionals_per_answer
         [of zi_dual "[apex_mx 10]" "''mail.example.com.''" mail_aaaa
             "[TypeA \<mapsto> mail_a_rrset, TypeAAAA \<mapsto> mail_aaaa_rrset]" mail_a_rrset
             "''mail.example.com.''" mail_aaaa_rrset]
  have l0: "lookupAorAAAA zi_dual ''mail.example.com.'' = [mail_a, mail_aaaa]"
    by (simp add: f m' t v)
  from addAdditionals_per_answer
         [of zi_dual "[apex_mx 10]" "''Mail.example.com''" mail_aaaa
             "[TypeA \<mapsto> mail_a_rrset, TypeAAAA \<mapsto> mail_aaaa_rrset]" mail_a_rrset
             "''mail.example.com.''" mail_aaaa_rrset]
  have l1: "lookupAorAAAA zi_dual ''Mail.example.com'' = [mail_a, mail_aaaa]"
    and a1: "addAdditionals zi_dual [apex_mx 10] = [mail_a, mail_aaaa]"
    by (simp_all add: f m' t v l0 apex_mx_def)
  have h: "h_Name (Header mail_aaaa) = ToLower (Fqdn ''Mail.example.com'')"
    by (simp add: f mail_aaaa_def)
  from addAdditionals_per_answer [of zi_dual "[apex_mx 10]" "''absent.example.com''"] n
  have e: "lookupAorAAAA zi_dual ''absent.example.com'' = []" by blast
  from a1 n e m t l1 h show ?thesis by simp
qed

text \<open>
  C7 as stated fails: two MX answers that name the same host put the host's address
  record into the additional section twice.
\<close>

theorem addAdditionals_duplicates_counterexample:
  "lookup zi_mx ''example.com.'' dns_TypeMX
     = Some ([apex_mx 10, apex_mx 20], [mail_a, mail_a], RcodeSuccess, 300)
   \<and> \<not> distinct [mail_a, mail_a]"
  by (simp add: zi_mx_def handler_defs mail_a_def apex_mx_def)

section \<open>Cached TTL of an answer with a CNAME (C6)\<close>

text \<open>
  C6 at a failing input. The zone has \<open>www CNAME @\<close> with TTL 60 and a TXT RRset with
  TTL 300 at the apex. The query \<open>www.example.com. TXT\<close> is answered NOERROR with the
  CNAME and the TXT record, whose minimum TTL is 60, and the response is stored in the
  positive cache for 300 seconds: \<open>lookup\<close> returns the TTL of the final RRset, not the
  minimum it accumulated over the CNAMEs.
\<close>

theorem ServeDNS_caches_final_rrset_ttl:
  "ServeDNS_inzone 0 caches0 zi_ttl ''www.example.com.'' dns_TypeTXT reply0
     = Some (reply0\<lparr>m_Answer := [www_cname, apex_txt]\<rparr>,
             caches0\<lparr>pos := \<lparr>lru_size = 100, lru_items =
               [(\<lparr>k_Name = ''www.example.com.'', k_Type = dns_TypeTXT\<rparr>,
                 \<lparr>v_ExpireAt = 300 * second,
                  v_Data = reply0\<lparr>m_Answer := [www_cname, apex_txt]\<rparr>\<rparr>)]\<rparr>\<rparr>)
   \<and> map (\<lambda>rr. h_Ttl (Header rr)) [www_cname, apex_txt] = [60, 300]"
proof -
  have l: "lookup zi_ttl ''www.example.com.'' dns_TypeTXT
             = Some ([www_cname, apex_txt], [], RcodeSuccess, 300)"
    by (simp add: zi_ttl_def handler_defs www_cname_def apex_txt_def)
  show ?thesis
    by (simp add: ServeDNS_inzone_def l PutPositive_def lru_Add_def key_def caches0_def reply0_def
        ToLower_def lower_char_def RcodeSuccess_def www_cname_def apex_txt_def Let_def)
qed

section \<open>CNAME uniqueness at load (C1)\<close>

text \<open>
  C1 at a failing input. The zone file has a TXT record and then a CNAME at \<open>www\<close>. The
  loader accepts it, and the index maps \<open>www.example.com.\<close> to both a CNAME RRset and a
  TXT RRset: \<open>hasOtherTypes\<close> answers false for a name that holds exactly one RRset
  which is not a CNAME.
\<close>

theorem ToIndex_accepts_CNAME_beside_TXT:
  "ToIndex parseIP_example zf_mixed = Inr zi_mixed
   \<and> (case zi_ByName zi_mixed ''www.example.com.'' of
         None \<Rightarrow> False
       | Some m \<Rightarrow> m TypeCNAME \<noteq> None \<and> m TypeTXT \<noteq> None)
   \<and> \<not> hasOtherTypes [TypeTXT \<mapsto> (new_RRSet TypeTXT 300)\<lparr>rs_TXT := [''hello'']\<rparr>]"
  by (simp add: zi_mixed_loaded) (simp add: zi_mixed_def example_index_def hasOtherTypes_def)

section \<open>Stored names and the zone suffix (C8)\<close>

lemma ensureName_dom:
  "ensureName bn name = (bn', m) \<Longrightarrow> dom bn' = insert name (dom bn)"
  by (auto simp: ensureName_def split: option.splits)

lemma index_record_dom:
  assumes "index_record parseIP zone ttl bn r = Inr bn'"
  shows "dom bn' = insert (NormalizeFQDN (raw_Name r) zone) (dom bn)"
proof -
  obtain bn1 m where e: "ensureName bn (NormalizeFQDN (raw_Name r) zone) = (bn1, m)"
    by (cases "ensureName bn (NormalizeFQDN (raw_Name r) zone)")
  from assms e have "\<exists>m'. bn' = bn1(NormalizeFQDN (raw_Name r) zone \<mapsto> m')"
    unfolding index_record_def Let_def
    by (simp split: if_splits sum.splits prod.splits) blast+
  with ensureName_dom [OF e] show ?thesis by auto
qed

lemma index_records_dom:
  "index_records parseIP zone ttl bn rs = Inr bn' \<Longrightarrow>
     dom bn' = dom bn \<union> (\<lambda>r. NormalizeFQDN (raw_Name r) zone) ` set rs"
proof (induction rs arbitrary: bn)
  case Nil
  then show ?case by simp
next
  case (Cons r rs)
  from Cons.prems obtain bn1 where a: "index_record parseIP zone ttl bn r = Inr bn1"
    and b: "index_records parseIP zone ttl bn1 rs = Inr bn'"
    by (auto split: sum.splits)
  from Cons.IH [OF b] index_record_dom [OF a] show ?case by auto
qed

lemma HasSuffix_append: "HasSuffix (a @ b) b"
  by (simp add: HasSuffix_def)

lemma NormalizeFQDN_cases:
  "HasSuffix (NormalizeFQDN name zone) (ToLower zone)
   \<or> (HasSuffix name ''.'' \<and> NormalizeFQDN name zone = ToLower name)"
proof -
  have "ToLower (name @ ''.'' @ zone) = ToLower (name @ ''.'') @ ToLower zone"
    by (simp add: ToLower_def)
  then have "HasSuffix (ToLower (name @ ''.'' @ zone)) (ToLower zone)"
    by (simp only: HasSuffix_append)
  then show ?thesis by (auto simp: NormalizeFQDN_def HasSuffix_refl)
qed

text \<open>
  C8, as the code has it. In the index of an accepted zone file, every stored name ends
  with the zone's FQDN or is the lowercased absolute (trailing-dot) name of a record of
  the file: relative names, \<open>@\<close> and the empty name are expanded under the zone, and an
  absolute name is stored as it is, without a check that it lies inside the zone.
\<close>

theorem stored_names_zone_suffix_or_absolute:
  assumes "ToIndex parseIP zf = Inr zi" and "name \<in> dom (zi_ByName zi)"
  shows "HasSuffix name (zi_ZoneFQDN zi)
         \<or> (\<exists>r \<in> set (zf_Records zf). HasSuffix (raw_Name r) ''.'' \<and> name = ToLower (raw_Name r))"
proof -
  from assms(1) obtain z nm where v: "Validate zf = Inr z"
    and ix: "index_records parseIP (MustFQDN (zf_Zone z)) (zf_TTLDefault z)
           [ToLower (MustFQDN (zf_Zone z)) \<mapsto>
              [TypeNS \<mapsto> (new_RRSet TypeNS (ttlOrDef None (zf_TTLDefault z)))\<lparr>rs_NS := normalizeFQDNs (zf_NS z)\<rparr>]]
           (zf_Records z) = Inr nm"
    and zi: "zi = \<lparr>zi_ZoneFQDN = ToLower (MustFQDN (zf_Zone z)), zi_Serial = zf_Serial z,
                zi_SOA = zf_SOA z, zi_TTLDef = zf_TTLDefault z, zi_ByName = nm\<rparr>"
    by (rule ToIndex_Inr)
  from Validate_Inr [OF v] have recs: "zf_Records z = zf_Records zf" by simp
  from index_records_dom [OF ix] assms(2) zi recs
  have "name = ToLower (MustFQDN (zf_Zone z))
        \<or> (\<exists>r \<in> set (zf_Records zf). name = NormalizeFQDN (raw_Name r) (MustFQDN (zf_Zone z)))"
    by auto
  then show ?thesis
  proof
    assume "name = ToLower (MustFQDN (zf_Zone z))"
    then show ?thesis by (simp add: zi HasSuffix_refl)
  next
    assume "\<exists>r \<in> set (zf_Records zf). name = NormalizeFQDN (raw_Name r) (MustFQDN (zf_Zone z))"
    then obtain r where r: "r \<in> set (zf_Records zf)"
      "name = NormalizeFQDN (raw_Name r) (MustFQDN (zf_Zone z))" by blast
    from NormalizeFQDN_cases [of "raw_Name r" "MustFQDN (zf_Zone z)"] r show ?thesis
      by (auto simp: zi)
  qed
qed

text \<open>
  The theorem at a relative name (\<open>www\<close>, stored under the zone) and at an absolute name
  (\<open>other.org.\<close>, stored as it is).
\<close>

theorem stored_names_zone_suffix_or_absolute_witness:
  "ToIndex parseIP_example zf_ttl = Inr zi_ttl
   \<and> ''www.example.com.'' \<in> dom (zi_ByName zi_ttl)
   \<and> HasSuffix ''www.example.com.'' (zi_ZoneFQDN zi_ttl)
   \<and> ToIndex parseIP_example zf_outside = Inr zi_outside
   \<and> ''other.org.'' \<in> dom (zi_ByName zi_outside)
   \<and> raw_Name (hd (zf_Records zf_outside)) = ''other.org.''
   \<and> HasSuffix ''other.org.'' ''.''"
proof -
  have d: "''www.example.com.'' \<in> dom (zi_ByName zi_ttl)"
    "''other.org.'' \<in> dom (zi_ByName zi_outside)"
    by (simp_all add: zi_ttl_def zi_outside_def example_index_def)
  have r: "raw_Name (hd (zf_Records zf_outside)) = ''other.org.''"
    by (simp add: zf_outside_def example_zone_def)
  have s: "HasSuffix ''www.example.com.'' (zi_ZoneFQDN zi_ttl)" "HasSuffix ''other.org.'' ''.''"
    by (simp_all add: zi_ttl_def example_index_def HasSuffix_def)
  from stored_names_zone_suffix_or_absolute [OF zi_ttl_loaded d(1)]
       stored_names_zone_suffix_or_absolute [OF zi_outside_loaded d(2)]
  show ?thesis
    by (simp only: zi_ttl_loaded zi_outside_loaded d r s simp_thms)
qed

text \<open>
  C8 as stated fails: the zone file with a record named \<open>other.org.\<close> is accepted, and
  the index of \<open>example.com.\<close> stores that name, which does not end with the zone's
  FQDN.
\<close>

theorem absolute_name_outside_zone_counterexample:
  "ToIndex parseIP_example zf_outside = Inr zi_outside
   \<and> zi_ByName zi_outside ''other.org.'' \<noteq> None
   \<and> \<not> HasSuffix ''other.org.'' (zi_ZoneFQDN zi_outside)"
  by (simp add: zi_outside_loaded) (simp add: zi_outside_def example_index_def HasSuffix_def)

end
